theory Spec2Isabelle
  imports Main "HOL-Library.Word" "HOL-Library.Monad_Syntax"
begin

unbundle bit_operations_syntax

section \<open>The dav1d JNI bridge (dav1d_jni.cc)\<close>

text \<open>
  The bridge is modelled function by function. A C++ \<open>int\<close> is an \<open>int\<close>; a value
  that the code stores through a narrowing conversion goes through that conversion
  explicitly. A function whose C++ execution can index an array out of bounds, read a
  slot that was never written or follow a dangling pointer returns \<open>None\<close> there:
  the behaviour of the program is undefined at that point.
\<close>

subsection \<open>Constants and status codes\<close>

definition kPlaneY :: int where "kPlaneY = 0"
definition kPlaneU :: int where "kPlaneU = 1"
definition kPlaneV :: int where "kPlaneV = 2"
definition kMaxPlanes :: int where "kMaxPlanes = 3"

definition kImageFormatYV12 :: int where "kImageFormatYV12 = 0x32315659"

definition kOutputModeYuv :: int where "kOutputModeYuv = 0"
definition kOutputModeSurfaceYuv :: int where "kOutputModeSurfaceYuv = 1"

definition kColorSpaceUnknown :: int where "kColorSpaceUnknown = 0"

definition kStatusError :: int where "kStatusError = 0"
definition kStatusOk :: int where "kStatusOk = 1"
definition kStatusDecodeOnly :: int where "kStatusDecodeOnly = 2"

datatype JniStatusCode =
    kJniStatusOk
  | kJniStatusOutOfMemory
  | kJniStatusBufferAlreadyReleased
  | kJniStatusInvalidNumOfPlanes
  | kJniStatusBitDepth12NotSupportedWithYuv
  | kJniStatusHighBitDepthNotSupportedWithSurfaceYuv
  | kJniStatusANativeWindowError
  | kJniStatusBufferResizeError
  | kJniStatusNeonNotSupported

fun JniStatusCode_value :: "JniStatusCode \<Rightarrow> int" where
  "JniStatusCode_value kJniStatusOk = 0"
| "JniStatusCode_value kJniStatusOutOfMemory = -1"
| "JniStatusCode_value kJniStatusBufferAlreadyReleased = -2"
| "JniStatusCode_value kJniStatusInvalidNumOfPlanes = -3"
| "JniStatusCode_value kJniStatusBitDepth12NotSupportedWithYuv = -4"
| "JniStatusCode_value kJniStatusHighBitDepthNotSupportedWithSurfaceYuv = -5"
| "JniStatusCode_value kJniStatusANativeWindowError = -6"
| "JniStatusCode_value kJniStatusBufferResizeError = -7"
| "JniStatusCode_value kJniStatusNeonNotSupported = -8"

fun GetJniErrorMessage :: "JniStatusCode \<Rightarrow> string" where
  "GetJniErrorMessage kJniStatusOutOfMemory = ''Out of memory.''"
| "GetJniErrorMessage kJniStatusBufferAlreadyReleased = ''JNI buffer already released.''"
| "GetJniErrorMessage kJniStatusBitDepth12NotSupportedWithYuv =
     ''Bit depth 12 is not supported with YUV.''"
| "GetJniErrorMessage kJniStatusHighBitDepthNotSupportedWithSurfaceYuv =
     ''High bit depth (10 or 12 bits per pixel) output format is not supported with YUV surface.''"
| "GetJniErrorMessage kJniStatusInvalidNumOfPlanes =
     ''Libgav1 decoded buffer has invalid number of planes.''"
| "GetJniErrorMessage kJniStatusANativeWindowError = ''ANativeWindow error.''"
| "GetJniErrorMessage kJniStatusBufferResizeError = ''Buffer resize failed.''"
| "GetJniErrorMessage kJniStatusNeonNotSupported = ''Neon is not supported.''"
| "GetJniErrorMessage kJniStatusOk = ''Unrecognized error code.''"

subsection \<open>C++ integers and arrays\<close>

text \<open>
  \<open>cdiv\<close> is the division of C++, which truncates towards zero. \<open>int_of_ptrdiff\<close>
  and \<open>int_of_size_t\<close> are the implicit conversions of a \<open>ptrdiff_t\<close> or
  \<open>size_t\<close> value to a 32-bit \<open>int\<close> (the low 32 bits, read as two's
  complement); \<open>size_t_of_int\<close> converts an \<open>int\<close> to the 64-bit \<open>size_t\<close> of
  the arm64-v8a ABI.
\<close>

definition cdiv :: "int \<Rightarrow> int \<Rightarrow> int" where
  "cdiv a b = sgn a * sgn b * (\<bar>a\<bar> div \<bar>b\<bar>)"

definition int_of_ptrdiff :: "int \<Rightarrow> int" where
  "int_of_ptrdiff x = signed_take_bit 31 x"

definition int_of_size_t :: "nat \<Rightarrow> int" where
  "int_of_size_t n = signed_take_bit 31 (int n)"

definition size_t_of_int :: "int \<Rightarrow> nat" where
  "size_t_of_int x = nat (take_bit 64 x)"

text \<open>
  A C++ array of \<open>n\<close> elements is a partial map on its indices: a slot that
  was never written holds \<open>None\<close>. Reading or writing outside \<open>0..n-1\<close>, and
  reading an unwritten slot, is undefined behaviour: \<open>None\<close>.
\<close>

type_synonym 'a c_array = "int \<Rightarrow> 'a option"

definition array_read :: "int \<Rightarrow> 'a c_array \<Rightarrow> int \<Rightarrow> 'a option" where
  "array_read n a i = (if 0 \<le> i \<and> i < n then a i else None)"

definition array_write :: "int \<Rightarrow> 'a c_array \<Rightarrow> int \<Rightarrow> 'a \<Rightarrow> 'a c_array option" where
  "array_write n a i v = (if 0 \<le> i \<and> i < n then Some (a(i \<mapsto> v)) else None)"

subsection \<open>Memory\<close>

text \<open>
  Memory is a set of allocated blocks of bytes. A pointer is a block and a byte offset
  into it; pointer arithmetic moves the offset. An access outside its block is
  undefined behaviour.
\<close>

type_synonym byte = "8 word"
type_synonym ptr = "nat \<times> int"
type_synonym memory = "nat \<Rightarrow> byte list option"

definition ptr_add :: "ptr \<Rightarrow> int \<Rightarrow> ptr" where
  "ptr_add p n = (fst p, snd p + n)"

definition load_bytes :: "memory \<Rightarrow> ptr \<Rightarrow> int \<Rightarrow> byte list option" where
  "load_bytes mem p n =
     (case mem (fst p) of
        None \<Rightarrow> None
      | Some bs \<Rightarrow>
          if 0 \<le> snd p \<and> 0 \<le> n \<and> snd p + n \<le> int (length bs)
          then Some (take (nat n) (drop (nat (snd p)) bs))
          else None)"

definition store_bytes :: "memory \<Rightarrow> ptr \<Rightarrow> byte list \<Rightarrow> memory option" where
  "store_bytes mem p xs =
     (case mem (fst p) of
        None \<Rightarrow> None
      | Some bs \<Rightarrow>
          if 0 \<le> snd p \<and> snd p + int (length xs) \<le> int (length bs)
          then Some (mem(fst p \<mapsto> take (nat (snd p)) bs @ xs @ drop (nat (snd p) + length xs) bs))
          else None)"

text \<open>\<open>memcpy(destination, source, n)\<close>; overlapping ranges are undefined behaviour.\<close>

definition memcpy :: "memory \<Rightarrow> ptr \<Rightarrow> ptr \<Rightarrow> int \<Rightarrow> memory option" where
  "memcpy mem destination source n =
     (if fst destination = fst source \<and> snd destination < snd source + n
         \<and> snd source < snd destination + n
      then None
      else do { xs \<leftarrow> load_bytes mem source n; store_bytes mem destination xs })"

subsection \<open>The decoder's picture\<close>

text \<open>
  \<open>Dav1dPicture\<close> is declared in the decoder library's header \<open>include/dav1d.h\<close>:
  \<open>void *data[3]\<close>, \<open>ptrdiff_t stride[2]\<close> and the parameters \<open>p\<close> with
  the \<open>int\<close> fields \<open>w\<close>, \<open>h\<close> and \<open>bpc\<close>. The two arrays are a triple
  and a pair, read by index with \<open>data_at\<close> and \<open>stride_at\<close>.
\<close>

record Dav1dPictureParameters =
  w :: int
  h :: int
  bpc :: int

record Dav1dPicture =
  data :: "ptr \<times> ptr \<times> ptr"
  stride :: "int \<times> int"
  p :: Dav1dPictureParameters

definition data_at :: "Dav1dPicture \<Rightarrow> int \<Rightarrow> ptr option" where
  "data_at pic i =
     (case data pic of (d0, d1, d2) \<Rightarrow>
        if i = 0 then Some d0 else if i = 1 then Some d1 else if i = 2 then Some d2 else None)"

definition stride_at :: "Dav1dPicture \<Rightarrow> int \<Rightarrow> int option" where
  "stride_at pic i =
     (case stride pic of (s0, s1) \<Rightarrow>
        if i = 0 then Some s0 else if i = 1 then Some s1 else None)"

subsection \<open>JniFrameBuffer\<close>

text \<open>
  The four per-plane arrays set by \<open>SetFrameData\<close> are not initialised by the
  constructor; \<open>raw_buffer_\<close> (here: whether the pointer is non-null) and
  \<open>raw_buffer_size_\<close> are zero-initialised. Isabelle reserves names that end
  with an underscore, so a member \<open>name_\<close> of the source is \<open>name_'\<close> here.
\<close>

record JniFrameBuffer =
  stride_' :: "int c_array"
  plane_' :: "ptr c_array"
  displayed_width_' :: "int c_array"
  displayed_height_' :: "int c_array"
  id_' :: int
  reference_count_' :: int
  raw_buffer_' :: "int \<Rightarrow> bool"
  raw_buffer_size_' :: "int \<Rightarrow> nat"

definition JniFrameBuffer_new :: "int \<Rightarrow> JniFrameBuffer" where
  "JniFrameBuffer_new id' =
     \<lparr> stride_' = (\<lambda>_. None), plane_' = (\<lambda>_. None),
       displayed_width_' = (\<lambda>_. None), displayed_height_' = (\<lambda>_. None),
       id_' = id', reference_count_' = 0,
       raw_buffer_' = (\<lambda>_. False), raw_buffer_size_' = (\<lambda>_. 0) \<rparr>"

definition SetFrameData_plane :: "Dav1dPicture \<Rightarrow> int \<Rightarrow> JniFrameBuffer \<Rightarrow> JniFrameBuffer option" where
  "SetFrameData_plane decoder_buffer plane_index b =
     do {
       s \<leftarrow> (if plane_index = 0 \<or> plane_index = 1
             then stride_at decoder_buffer plane_index
             else stride_at decoder_buffer 1);
       st \<leftarrow> array_write kMaxPlanes (stride_' b) plane_index (int_of_ptrdiff s);
       d \<leftarrow> data_at decoder_buffer plane_index;
       pl \<leftarrow> array_write kMaxPlanes (plane_' b) plane_index d;
       dw \<leftarrow> array_write kMaxPlanes (displayed_width_' b) plane_index
              (if plane_index = 0 then w (p decoder_buffer) else cdiv (w (p decoder_buffer)) 2);
       dh \<leftarrow> array_write kMaxPlanes (displayed_height_' b) plane_index
              (if plane_index = 0 then h (p decoder_buffer) else cdiv (h (p decoder_buffer)) 2);
       Some (b\<lparr>stride_' := st, plane_' := pl, displayed_width_' := dw, displayed_height_' := dh\<rparr>)
     }"

text \<open>The loop \<open>for (plane_index = kPlaneY; plane_index < 3; plane_index++)\<close>.\<close>

fun SetFrameData_loop :: "Dav1dPicture \<Rightarrow> int list \<Rightarrow> JniFrameBuffer \<Rightarrow> JniFrameBuffer option" where
  "SetFrameData_loop decoder_buffer [] b = Some b"
| "SetFrameData_loop decoder_buffer (plane_index # rest) b =
     do { b' \<leftarrow> SetFrameData_plane decoder_buffer plane_index b;
          SetFrameData_loop decoder_buffer rest b' }"

definition SetFrameData :: "JniFrameBuffer \<Rightarrow> Dav1dPicture \<Rightarrow> JniFrameBuffer option" where
  "SetFrameData b decoder_buffer = SetFrameData_loop decoder_buffer [kPlaneY..3 - 1] b"

definition Stride :: "JniFrameBuffer \<Rightarrow> int \<Rightarrow> int option" where
  "Stride b plane_index = array_read kMaxPlanes (stride_' b) plane_index"

definition Plane :: "JniFrameBuffer \<Rightarrow> int \<Rightarrow> ptr option" where
  "Plane b plane_index = array_read kMaxPlanes (plane_' b) plane_index"

definition DisplayedWidth :: "JniFrameBuffer \<Rightarrow> int \<Rightarrow> int option" where
  "DisplayedWidth b plane_index = array_read kMaxPlanes (displayed_width_' b) plane_index"

definition DisplayedHeight :: "JniFrameBuffer \<Rightarrow> int \<Rightarrow> int option" where
  "DisplayedHeight b plane_index = array_read kMaxPlanes (displayed_height_' b) plane_index"

definition AddReference :: "JniFrameBuffer \<Rightarrow> JniFrameBuffer" where
  "AddReference b = b\<lparr>reference_count_' := reference_count_' b + 1\<rparr>"

definition RemoveReference :: "JniFrameBuffer \<Rightarrow> JniFrameBuffer" where
  "RemoveReference b = b\<lparr>reference_count_' := reference_count_' b - 1\<rparr>"

definition InUse :: "JniFrameBuffer \<Rightarrow> bool" where
  "InUse b \<longleftrightarrow> reference_count_' b \<noteq> 0"

definition BufferPrivateData :: "JniFrameBuffer \<Rightarrow> int" where
  "BufferPrivateData b = id_' b"

text \<open>
  \<open>MaybeReallocateGav1DataPlanes\<close>: \<open>alloc_ok plane_index\<close> says whether
  \<open>new (std::nothrow) uint8_t[min_size]\<close> succeeds for that plane. The loop stops at
  the first failed allocation.
\<close>

fun MaybeReallocate_loop ::
  "(int \<Rightarrow> bool) \<Rightarrow> int \<Rightarrow> int \<Rightarrow> int list \<Rightarrow> JniFrameBuffer \<Rightarrow> bool \<times> JniFrameBuffer" where
  "MaybeReallocate_loop alloc_ok y_plane_min_size uv_plane_min_size [] b = (True, b)"
| "MaybeReallocate_loop alloc_ok y_plane_min_size uv_plane_min_size (plane_index # rest) b =
     (let min_size = (if plane_index = kPlaneY then y_plane_min_size else uv_plane_min_size) in
      if size_t_of_int min_size \<le> raw_buffer_size_' b plane_index
      then MaybeReallocate_loop alloc_ok y_plane_min_size uv_plane_min_size rest b
      else if \<not> alloc_ok plane_index
      then (False, b\<lparr>raw_buffer_' := (raw_buffer_' b)(plane_index := False),
                     raw_buffer_size_' := (raw_buffer_size_' b)(plane_index := 0)\<rparr>)
      else MaybeReallocate_loop alloc_ok y_plane_min_size uv_plane_min_size rest
             (b\<lparr>raw_buffer_' := (raw_buffer_' b)(plane_index := True),
                raw_buffer_size_' := (raw_buffer_size_' b)(plane_index := size_t_of_int min_size)\<rparr>))"

definition MaybeReallocateGav1DataPlanes ::
  "JniFrameBuffer \<Rightarrow> int \<Rightarrow> int \<Rightarrow> (int \<Rightarrow> bool) \<Rightarrow> bool \<times> JniFrameBuffer" where
  "MaybeReallocateGav1DataPlanes b y_plane_min_size uv_plane_min_size alloc_ok =
     MaybeReallocate_loop alloc_ok y_plane_min_size uv_plane_min_size [kPlaneY..kMaxPlanes - 1] b"

subsection \<open>JniBufferManager\<close>

text \<open>
  The frame buffers created with \<open>new\<close> live in \<open>objects\<close>, in the order of
  their creation; a \<open>JniFrameBuffer *\<close> is an index into it. The two arrays hold such
  pointers, as in the source. No frame buffer is deleted before the manager is.
\<close>

definition kMaxFrames :: int where "kMaxFrames = 32"

record JniBufferManager =
  objects :: "JniFrameBuffer list"
  all_buffers_' :: "nat c_array"
  all_buffer_count_' :: int
  free_buffers_' :: "nat c_array"
  free_buffer_count_' :: int

definition JniBufferManager_new :: JniBufferManager where
  "JniBufferManager_new =
     \<lparr> objects = [], all_buffers_' = (\<lambda>_. None), all_buffer_count_' = 0,
       free_buffers_' = (\<lambda>_. None), free_buffer_count_' = 0 \<rparr>"

definition deref :: "JniBufferManager \<Rightarrow> nat \<Rightarrow> JniFrameBuffer option" where
  "deref m a = (if a < length (objects m) then Some (objects m ! a) else None)"

definition assign :: "JniBufferManager \<Rightarrow> nat \<Rightarrow> JniFrameBuffer \<Rightarrow> JniBufferManager" where
  "assign m a b = m\<lparr>objects := (objects m)[a := b]\<rparr>"

text \<open>
  Lines 270 to 279 of \<open>GetBuffer\<close>, which follow the choice of \<open>output_buffer\<close>.
  The result is the status, the pointer written to \<open>*jni_buffer\<close> (if any) and the
  manager.
\<close>

definition GetBuffer_finish ::
  "JniBufferManager \<Rightarrow> nat \<Rightarrow> nat \<Rightarrow> nat \<Rightarrow> (int \<Rightarrow> bool)
     \<Rightarrow> (JniStatusCode \<times> nat option \<times> JniBufferManager) option" where
  "GetBuffer_finish m output_buffer y_plane_min_size uv_plane_min_size alloc_ok =
     do {
       b \<leftarrow> deref m output_buffer;
       let (ok, b1) = MaybeReallocateGav1DataPlanes b (int_of_size_t y_plane_min_size)
                        (int_of_size_t uv_plane_min_size) alloc_ok;
       if \<not> ok then Some (kJniStatusOutOfMemory, None, assign m output_buffer b1)
       else Some (kJniStatusOk, Some output_buffer, assign m output_buffer (AddReference b1))
     }"

text \<open>
  \<open>GetBuffer(y_plane_min_size, uv_plane_min_size, jni_buffer)\<close>. \<open>new_ok\<close> says
  whether \<open>new (std::nothrow) JniFrameBuffer\<close> succeeds.
\<close>

definition GetBuffer ::
  "JniBufferManager \<Rightarrow> nat \<Rightarrow> nat \<Rightarrow> bool \<Rightarrow> (int \<Rightarrow> bool)
     \<Rightarrow> (JniStatusCode \<times> nat option \<times> JniBufferManager) option" where
  "GetBuffer m y_plane_min_size uv_plane_min_size new_ok alloc_ok =
     (if free_buffer_count_' m \<noteq> 0 then
        do {
          let m1 = m\<lparr>free_buffer_count_' := free_buffer_count_' m - 1\<rparr>;
          output_buffer \<leftarrow> array_read kMaxFrames (free_buffers_' m1) (free_buffer_count_' m1);
          GetBuffer_finish m1 output_buffer y_plane_min_size uv_plane_min_size alloc_ok
        }
      else if all_buffer_count_' m < kMaxFrames then
        (if \<not> new_ok then Some (kJniStatusOutOfMemory, None, m)
         else do {
           let output_buffer = length (objects m);
           let m1 = m\<lparr>objects := objects m @ [JniFrameBuffer_new (all_buffer_count_' m)]\<rparr>;
           arr \<leftarrow> array_write kMaxFrames (all_buffers_' m1) (all_buffer_count_' m1) output_buffer;
           GetBuffer_finish
             (m1\<lparr>all_buffers_' := arr, all_buffer_count_' := all_buffer_count_' m1 + 1\<rparr>)
             output_buffer y_plane_min_size uv_plane_min_size alloc_ok
         })
      else Some (kJniStatusOutOfMemory, None, m))"

text \<open>\<open>GetBuffer(int id)\<close>.\<close>

definition GetBuffer_id :: "JniBufferManager \<Rightarrow> int \<Rightarrow> nat option" where
  "GetBuffer_id m id' = array_read kMaxFrames (all_buffers_' m) id'"

definition AddBufferReference :: "JniBufferManager \<Rightarrow> int \<Rightarrow> JniBufferManager option" where
  "AddBufferReference m id' =
     do {
       a \<leftarrow> array_read kMaxFrames (all_buffers_' m) id';
       b \<leftarrow> deref m a;
       Some (assign m a (AddReference b))
     }"

definition ReleaseBuffer :: "JniBufferManager \<Rightarrow> int \<Rightarrow> (JniStatusCode \<times> JniBufferManager) option" where
  "ReleaseBuffer m id' =
     do {
       buffer \<leftarrow> array_read kMaxFrames (all_buffers_' m) id';
       b \<leftarrow> deref m buffer;
       if \<not> InUse b then Some (kJniStatusBufferAlreadyReleased, m)
       else do {
         let b1 = RemoveReference b;
         let m1 = assign m buffer b1;
         if \<not> InUse b1 then
           do {
             arr \<leftarrow> array_write kMaxFrames (free_buffers_' m1) (free_buffer_count_' m1) buffer;
             Some (kJniStatusOk,
                   m1\<lparr>free_buffers_' := arr, free_buffer_count_' := free_buffer_count_' m1 + 1\<rparr>)
           }
         else Some (kJniStatusOk, m1)
       }
     }"

subsection \<open>Copying planes\<close>

definition AlignTo16 :: "int \<Rightarrow> int" where
  "AlignTo16 value = (value + 15) AND (NOT 15)"

text \<open>
  \<open>CopyPlane\<close>: the loop \<open>while (height--)\<close> copies one row of \<open>width\<close>
  bytes and advances both pointers by their strides. With a negative \<open>height\<close> the
  loop does not stop before the counter overflows, and a negative \<open>width\<close> is a
  huge \<open>size_t\<close>: both are undefined behaviour.
\<close>

fun CopyPlane_rows :: "nat \<Rightarrow> memory \<Rightarrow> ptr \<Rightarrow> int \<Rightarrow> ptr \<Rightarrow> int \<Rightarrow> int \<Rightarrow> memory option" where
  "CopyPlane_rows 0 mem source source_stride destination destination_stride width = Some mem"
| "CopyPlane_rows (Suc n) mem source source_stride destination destination_stride width =
     do {
       mem' \<leftarrow> memcpy mem destination source width;
       CopyPlane_rows n mem' (ptr_add source source_stride) source_stride
         (ptr_add destination destination_stride) destination_stride width
     }"

definition CopyPlane :: "memory \<Rightarrow> ptr \<Rightarrow> int \<Rightarrow> ptr \<Rightarrow> int \<Rightarrow> int \<Rightarrow> int \<Rightarrow> memory option" where
  "CopyPlane mem source source_stride destination destination_stride width height =
     (if height < 0 then None
      else CopyPlane_rows (nat height) mem source source_stride destination destination_stride width)"

text \<open>
  \<open>CopyFrameToDataBuffer\<close>: \<open>length\<close> is \<open>sizeof decoder_buffer->data[plane_index]\<close>,
  the size of a \<open>void *\<close>: 8 bytes on arm64-v8a (4 on the 32-bit ABIs).
\<close>

definition sizeof_pointer :: int where "sizeof_pointer = 8"

fun CopyFrameToDataBuffer_loop :: "Dav1dPicture \<Rightarrow> int list \<Rightarrow> memory \<Rightarrow> ptr \<Rightarrow> memory option" where
  "CopyFrameToDataBuffer_loop decoder_buffer [] mem data' = Some mem"
| "CopyFrameToDataBuffer_loop decoder_buffer (plane_index # rest) mem data' =
     do {
       let length' = sizeof_pointer;
       source \<leftarrow> data_at decoder_buffer plane_index;
       mem' \<leftarrow> memcpy mem data' source length';
       CopyFrameToDataBuffer_loop decoder_buffer rest mem' (ptr_add data' length')
     }"

definition CopyFrameToDataBuffer :: "memory \<Rightarrow> Dav1dPicture \<Rightarrow> ptr \<Rightarrow> memory option" where
  "CopyFrameToDataBuffer mem decoder_buffer data' =
     CopyFrameToDataBuffer_loop decoder_buffer [kPlaneY..3 - 1] mem data'"

text \<open>
  \<open>Convert10BitFrameTo8BitDataBuffer\<close>. A sample is a little-endian \<open>uint16_t\<close>.
  \<open>Convert10Bit_pixel\<close> is the body of the inner loop: it takes the carry
  \<open>sample\<close> and the source value, and gives the byte stored in \<open>data[j]\<close> (the
  conversion of the \<open>int\<close> to a \<open>jbyte\<close> keeps its low 8 bits) and the new carry.
\<close>

definition load_u16 :: "memory \<Rightarrow> ptr \<Rightarrow> int option" where
  "load_u16 mem q =
     (case load_bytes mem q 2 of
        Some [lo, hi] \<Rightarrow> Some (uint lo + 256 * uint hi)
      | _ \<Rightarrow> None)"

definition Convert10Bit_pixel :: "int \<Rightarrow> int \<Rightarrow> byte \<times> int" where
  "Convert10Bit_pixel sample source_16_j =
     (let sample1 = sample + source_16_j
      in (word_of_int (drop_bit 2 sample1), sample1 AND 3))"

fun Convert10Bit_row :: "ptr \<Rightarrow> ptr \<Rightarrow> int list \<Rightarrow> int \<Rightarrow> memory \<Rightarrow> (int \<times> memory) option" where
  "Convert10Bit_row source_16 data' [] sample mem = Some (sample, mem)"
| "Convert10Bit_row source_16 data' (j # js) sample mem =
     do {
       v \<leftarrow> load_u16 mem (ptr_add source_16 (2 * j));
       mem' \<leftarrow> store_bytes mem (ptr_add data' j) [fst (Convert10Bit_pixel sample v)];
       Convert10Bit_row source_16 data' js (snd (Convert10Bit_pixel sample v)) mem'
     }"

fun Convert10Bit_rows ::
  "Dav1dPicture \<Rightarrow> int \<Rightarrow> int list \<Rightarrow> int \<Rightarrow> ptr \<Rightarrow> ptr \<Rightarrow> memory
     \<Rightarrow> (ptr \<times> memory) option" where
  "Convert10Bit_rows decoder_buffer plane_index [] sample source data' mem = Some (data', mem)"
| "Convert10Bit_rows decoder_buffer plane_index (i # is) sample source data' mem =
     do {
       r \<leftarrow> Convert10Bit_row source data' [0..w (p decoder_buffer) - 1] sample mem;
       s \<leftarrow> stride_at decoder_buffer plane_index;
       Convert10Bit_rows decoder_buffer plane_index is (fst r) (ptr_add source s)
         (ptr_add data' s) (snd r)
     }"

fun Convert10Bit_planes :: "Dav1dPicture \<Rightarrow> int list \<Rightarrow> ptr \<Rightarrow> memory \<Rightarrow> (ptr \<times> memory) option" where
  "Convert10Bit_planes decoder_buffer [] data' mem = Some (data', mem)"
| "Convert10Bit_planes decoder_buffer (plane_index # rest) data' mem =
     do {
       source \<leftarrow> data_at decoder_buffer plane_index;
       r \<leftarrow> Convert10Bit_rows decoder_buffer plane_index [0..h (p decoder_buffer) - 1] 0
              source data' mem;
       Convert10Bit_planes decoder_buffer rest (fst r) (snd r)
     }"

definition Convert10BitFrameTo8BitDataBuffer :: "memory \<Rightarrow> Dav1dPicture \<Rightarrow> ptr \<Rightarrow> memory option" where
  "Convert10BitFrameTo8BitDataBuffer mem decoder_buffer data' =
     map_option snd (Convert10Bit_planes decoder_buffer [kPlaneY..3 - 1] data' mem)"

subsection \<open>The JNI entry points\<close>

text \<open>
  \<open>JOutputBuffer\<close> is the Java object \<open>VideoDecoderOutputBuffer\<close>, with the three
  fields the bridge reads and writes; \<open>data\<close> is the address of the direct byte
  buffer (\<open>None\<close> for a null address). \<open>JniContext\<close> leaves out the decoder handle
  and the JNI field and method ids.
\<close>

record JOutputBuffer =
  decoderPrivate :: int
  mode :: int
  data :: "ptr option"

record JniContext =
  buffer_manager :: JniBufferManager
  native_window :: "nat option"
  surface :: "nat option"
  native_window_width :: int
  native_window_height :: int
  avid_status_code :: int
  jni_status_code :: JniStatusCode

text \<open>
  What the decoder library, the allocator and the Java methods answer during one call
  of \<open>gav1GetFrame\<close>: the status and picture of \<open>dav1d_get_picture\<close>, whether the
  allocations succeed, and the two Java methods (their result, whether a Java
  exception is pending afterwards, and the object and memory they leave).
\<close>

record GetFrame_host =
  dav1d_get_picture :: "int \<times> Dav1dPicture"
  new_frame_buffer_ok :: bool
  new_plane_ok :: "int \<Rightarrow> bool"
  initForYuvFrame ::
    "JOutputBuffer \<Rightarrow> memory \<Rightarrow> int \<Rightarrow> int \<Rightarrow> int \<Rightarrow> int \<Rightarrow> int
       \<Rightarrow> bool \<times> bool \<times> JOutputBuffer \<times> memory"
  initForPrivateFrame :: "JOutputBuffer \<Rightarrow> int \<Rightarrow> int \<Rightarrow> bool \<times> JOutputBuffer"

text \<open>The branch of \<open>gav1GetFrame\<close> for \<open>kOutputModeYuv\<close> (lines 540 to 576).\<close>

definition gav1GetFrame_yuv ::
  "GetFrame_host \<Rightarrow> JniContext \<Rightarrow> JOutputBuffer \<Rightarrow> Dav1dPicture \<Rightarrow> memory
     \<Rightarrow> (int \<times> JniContext \<times> JOutputBuffer \<times> memory) option" where
  "gav1GetFrame_yuv host context jOutputBuffer pic mem =
     (case initForYuvFrame host jOutputBuffer mem (w (p pic)) (h (p pic))
             (int_of_ptrdiff (fst (Dav1dPicture.stride pic)))
             (int_of_ptrdiff (snd (Dav1dPicture.stride pic))) kColorSpaceUnknown of
        (init_result, exception, jOutputBuffer1, mem1) \<Rightarrow>
          if exception then Some (kStatusError, context, jOutputBuffer1, mem1)
          else if \<not> init_result then
            Some (kStatusError, context\<lparr>jni_status_code := kJniStatusBufferResizeError\<rparr>,
                  jOutputBuffer1, mem1)
          else if bpc (p pic) = 8 then
            do {
              data' \<leftarrow> JOutputBuffer.data jOutputBuffer1;
              mem2 \<leftarrow> CopyFrameToDataBuffer mem1 pic data';
              Some (kStatusOk, context, jOutputBuffer1, mem2)
            }
          else if bpc (p pic) = 10 then
            do {
              data' \<leftarrow> JOutputBuffer.data jOutputBuffer1;
              mem2 \<leftarrow> Convert10BitFrameTo8BitDataBuffer mem1 pic data';
              Some (kStatusOk, context, jOutputBuffer1, mem2)
            }
          else
            Some (kStatusError,
                  context\<lparr>jni_status_code := kJniStatusBitDepth12NotSupportedWithYuv\<rparr>,
                  jOutputBuffer1, mem1))"

text \<open>The branch for \<open>kOutputModeSurfaceYuv\<close> (lines 578 to 597).\<close>

definition gav1GetFrame_surface ::
  "GetFrame_host \<Rightarrow> JniContext \<Rightarrow> JOutputBuffer \<Rightarrow> Dav1dPicture \<Rightarrow> nat \<Rightarrow> memory
     \<Rightarrow> (int \<times> JniContext \<times> JOutputBuffer \<times> memory) option" where
  "gav1GetFrame_surface host context jOutputBuffer pic jni_buffer mem =
     (if bpc (p pic) \<noteq> 8 then
        Some (kStatusError,
              context\<lparr>jni_status_code := kJniStatusHighBitDepthNotSupportedWithSurfaceYuv\<rparr>,
              jOutputBuffer, mem)
      else
        do {
          b \<leftarrow> deref (buffer_manager context) jni_buffer;
          b' \<leftarrow> SetFrameData b pic;
          let context1 = context\<lparr>buffer_manager := assign (buffer_manager context) jni_buffer b'\<rparr>;
          case initForPrivateFrame host jOutputBuffer (w (p pic)) (h (p pic)) of
            (exception, jOutputBuffer1) \<Rightarrow>
              if exception then Some (kStatusError, context1, jOutputBuffer1, mem)
              else Some (kStatusOk, context1,
                         jOutputBuffer1\<lparr>decoderPrivate := BufferPrivateData b'\<rparr>, mem)
        })"

definition gav1GetFrame ::
  "GetFrame_host \<Rightarrow> JniContext \<Rightarrow> JOutputBuffer \<Rightarrow> bool \<Rightarrow> memory
     \<Rightarrow> (int \<times> JniContext \<times> JOutputBuffer \<times> memory) option" where
  "gav1GetFrame host context jOutputBuffer decodeOnly mem =
     (case dav1d_get_picture host of
        (status, pic) \<Rightarrow>
          let context1 = context\<lparr>avid_status_code := status\<rparr> in
          if status \<noteq> JniStatusCode_value kJniStatusOk then
            Some (kStatusError, context1, jOutputBuffer, mem)
          else if decodeOnly then Some (kStatusDecodeOnly, context1, jOutputBuffer, mem)
          else
            do {
              r \<leftarrow> GetBuffer (buffer_manager context1)
                     (size_t_of_int (fst (Dav1dPicture.stride pic)))
                     (size_t_of_int (snd (Dav1dPicture.stride pic)))
                     (new_frame_buffer_ok host) (new_plane_ok host);
              let context2 = context1\<lparr>buffer_manager := snd (snd r), jni_status_code := fst r\<rparr>;
              if fst r \<noteq> kJniStatusOk then Some (kStatusError, context2, jOutputBuffer, mem)
              else
                let output_mode = mode jOutputBuffer in
                if output_mode = kOutputModeYuv then
                  gav1GetFrame_yuv host context2 jOutputBuffer pic mem
                else if output_mode = kOutputModeSurfaceYuv then
                  do {
                    jni_buffer \<leftarrow> fst (snd r);
                    gav1GetFrame_surface host context2 jOutputBuffer pic jni_buffer mem
                  }
                else Some (kStatusOk, context2, jOutputBuffer, mem)
            })"

text \<open>
  \<open>gav1ReleaseFrame\<close>; the last component of the result is what \<open>LOGE\<close> printed.
\<close>

definition gav1ReleaseFrame ::
  "JniContext \<Rightarrow> JOutputBuffer \<Rightarrow> (JniContext \<times> JOutputBuffer \<times> string list) option" where
  "gav1ReleaseFrame context jOutputBuffer =
     (let buffer_id = decoderPrivate jOutputBuffer;
          jOutputBuffer1 = jOutputBuffer\<lparr>decoderPrivate := -1\<rparr>
      in if buffer_id < 0 then Some (context, jOutputBuffer1, [])
         else
           do {
             r \<leftarrow> ReleaseBuffer (buffer_manager context) buffer_id;
             let context1 = context\<lparr>buffer_manager := snd r, jni_status_code := fst r\<rparr>;
             Some (context1, jOutputBuffer1,
                   if fst r \<noteq> kJniStatusOk then [GetJniErrorMessage (fst r)] else [])
           })"

text \<open>
  \<open>ANativeWindow_Buffer\<close> is the NDK's structure, filled by \<open>ANativeWindow_lock\<close>.
  \<open>Render_host\<close> is what the NDK answers during one call of \<open>gav1RenderFrame\<close>;
  a surface and a window are opaque handles (\<open>None\<close> for null).
\<close>

record ANativeWindow_Buffer =
  width :: int
  height :: int
  stride :: int
  format :: int
  bits :: "ptr option"

record Render_host =
  ANativeWindow_fromSurface :: "nat option \<Rightarrow> nat option"
  ANativeWindow_setBuffersGeometry :: "nat \<Rightarrow> int \<Rightarrow> int \<Rightarrow> int \<Rightarrow> int"
  ANativeWindow_lock :: "nat \<Rightarrow> int \<times> ANativeWindow_Buffer"
  ANativeWindow_unlockAndPost :: "nat \<Rightarrow> int"

definition MaybeAcquireNativeWindow ::
  "Render_host \<Rightarrow> JniContext \<Rightarrow> nat option \<Rightarrow> bool \<times> JniContext" where
  "MaybeAcquireNativeWindow host context new_surface =
     (if surface context = new_surface then (True, context)
      else
        let context1 = context\<lparr>native_window_width := 0, native_window_height := 0,
                               native_window := ANativeWindow_fromSurface host new_surface\<rparr>
        in if native_window context1 = None then
             (False, context1\<lparr>jni_status_code := kJniStatusANativeWindowError, surface := None\<rparr>)
           else (True, context1\<lparr>surface := new_surface\<rparr>))"

text \<open>
  The three \<open>CopyPlane\<close> calls of \<open>gav1RenderFrame\<close> (lines 639 to 678);
  \<open>bits'\<close> is the non-null \<open>native_window_buffer.bits\<close>.
\<close>

definition gav1RenderFrame_planes ::
  "JniFrameBuffer \<Rightarrow> ANativeWindow_Buffer \<Rightarrow> ptr \<Rightarrow> memory \<Rightarrow> memory option" where
  "gav1RenderFrame_planes jni_buffer native_window_buffer bits' mem =
     do {
       plane_y \<leftarrow> Plane jni_buffer kPlaneY;
       stride_y \<leftarrow> Stride jni_buffer kPlaneY;
       width_y \<leftarrow> DisplayedWidth jni_buffer kPlaneY;
       height_y \<leftarrow> DisplayedHeight jni_buffer kPlaneY;
       mem1 \<leftarrow> CopyPlane mem plane_y stride_y bits'
                 (ANativeWindow_Buffer.stride native_window_buffer) width_y height_y;
       let y_plane_size =
             ANativeWindow_Buffer.stride native_window_buffer * height native_window_buffer;
       let native_window_buffer_uv_height = cdiv (height native_window_buffer + 1) 2;
       let native_window_buffer_uv_stride =
             AlignTo16 (cdiv (ANativeWindow_Buffer.stride native_window_buffer) 2);
       height_v \<leftarrow> DisplayedHeight jni_buffer kPlaneV;
       let v_plane_height = min native_window_buffer_uv_height height_v;
       plane_v \<leftarrow> Plane jni_buffer kPlaneV;
       stride_v \<leftarrow> Stride jni_buffer kPlaneV;
       width_v \<leftarrow> DisplayedWidth jni_buffer kPlaneV;
       mem2 \<leftarrow> CopyPlane mem1 plane_v stride_v (ptr_add bits' y_plane_size)
                 native_window_buffer_uv_stride width_v v_plane_height;
       let v_plane_size = v_plane_height * native_window_buffer_uv_stride;
       plane_u \<leftarrow> Plane jni_buffer kPlaneU;
       stride_u \<leftarrow> Stride jni_buffer kPlaneU;
       width_u \<leftarrow> DisplayedWidth jni_buffer kPlaneU;
       height_u \<leftarrow> DisplayedHeight jni_buffer kPlaneU;
       CopyPlane mem2 plane_u stride_u (ptr_add bits' (y_plane_size + v_plane_size))
         native_window_buffer_uv_stride width_u (min native_window_buffer_uv_height height_u)
     }"

definition gav1RenderFrame ::
  "Render_host \<Rightarrow> JniContext \<Rightarrow> nat option \<Rightarrow> JOutputBuffer \<Rightarrow> memory
     \<Rightarrow> (int \<times> JniContext \<times> memory) option" where
  "gav1RenderFrame host context jSurface jOutputBuffer mem =
     do {
       let buffer_id = decoderPrivate jOutputBuffer;
       a \<leftarrow> GetBuffer_id (buffer_manager context) buffer_id;
       case MaybeAcquireNativeWindow host context jSurface of
         (acquired, context1) \<Rightarrow>
           if \<not> acquired then Some (kStatusError, context1, mem)
           else
             do {
               jni_buffer \<leftarrow> deref (buffer_manager context1) a;
               width_y \<leftarrow> DisplayedWidth jni_buffer kPlaneY;
               height_y \<leftarrow> DisplayedHeight jni_buffer kPlaneY;
               window \<leftarrow> native_window context1;
               let resize = (native_window_width context1 \<noteq> width_y
                             \<or> native_window_height context1 \<noteq> height_y);
               if resize \<and> ANativeWindow_setBuffersGeometry host window width_y height_y
                              kImageFormatYV12 \<noteq> 0
               then Some (kStatusError,
                          context1\<lparr>jni_status_code := kJniStatusANativeWindowError\<rparr>, mem)
               else
                 let context2 =
                       (if resize
                        then context1\<lparr>native_window_width := width_y,
                                      native_window_height := height_y\<rparr>
                        else context1)
                 in case ANativeWindow_lock host window of
                      (lock_result, native_window_buffer) \<Rightarrow>
                        if lock_result \<noteq> 0 \<or> bits native_window_buffer = None then
                          Some (kStatusError,
                                context2\<lparr>jni_status_code := kJniStatusANativeWindowError\<rparr>, mem)
                        else
                          do {
                            bits' \<leftarrow> bits native_window_buffer;
                            mem' \<leftarrow> gav1RenderFrame_planes jni_buffer native_window_buffer
                                      bits' mem;
                            if ANativeWindow_unlockAndPost host window \<noteq> 0 then
                              Some (kStatusError,
                                    context2\<lparr>jni_status_code := kJniStatusANativeWindowError\<rparr>,
                                    mem')
                            else Some (kStatusOk, context2, mem')
                          }
             }
     }"

subsection \<open>The mutex of JniBufferManager\<close>

text \<open>
  The lock discipline of the manager: each method as the sequence of its accesses to
  the four members of the pool, in program order, with the acquisition of
  \<open>mutex_\<close> by \<open>std::lock_guard\<close> at the start of the body and its release at
  the end of the scope, where the method has one.
\<close>

datatype pool_member = All_buffers | All_buffer_count | Free_buffers | Free_buffer_count

datatype mutex_event = Lock | Unlock | Access pool_member

definition GetBuffer_events :: "JniBufferManager \<Rightarrow> bool \<Rightarrow> mutex_event list" where
  "GetBuffer_events m new_ok =
     [Lock, Access Free_buffer_count] @
     (if free_buffer_count_' m \<noteq> 0 then [Access Free_buffer_count, Access Free_buffers]
      else Access All_buffer_count #
        (if all_buffer_count_' m < kMaxFrames then
           Access All_buffer_count #
             (if new_ok then [Access All_buffer_count, Access All_buffers] else [])
         else [])) @
     [Unlock]"

definition GetBuffer_id_events :: "int \<Rightarrow> mutex_event list" where
  "GetBuffer_id_events id' = [Access All_buffers]"

definition AddBufferReference_events :: "int \<Rightarrow> mutex_event list" where
  "AddBufferReference_events id' = [Lock, Access All_buffers, Unlock]"

definition ReleaseBuffer_events :: "JniBufferManager \<Rightarrow> int \<Rightarrow> mutex_event list" where
  "ReleaseBuffer_events m id' =
     [Lock, Access All_buffers] @
     (case Option.bind (array_read kMaxFrames (all_buffers_' m) id') (deref m) of
        None \<Rightarrow> []
      | Some b \<Rightarrow>
          if InUse b \<and> \<not> InUse (RemoveReference b)
          then [Access Free_buffer_count, Access Free_buffers] else []) @
     [Unlock]"

text \<open>Every access of the sequence happens while the mutex is held.\<close>

fun accesses_locked :: "bool \<Rightarrow> mutex_event list \<Rightarrow> bool" where
  "accesses_locked held [] = True"
| "accesses_locked held (Lock # es) = accesses_locked True es"
| "accesses_locked held (Unlock # es) = accesses_locked False es"
| "accesses_locked held (Access member # es) = (held \<and> accesses_locked held es)"

subsection \<open>Sequences of calls on the pool\<close>

datatype pool_op =
    OpGetBuffer nat nat bool "int \<Rightarrow> bool"
  | OpAddBufferReference int
  | OpReleaseBuffer int

fun apply_op :: "JniBufferManager \<Rightarrow> pool_op \<Rightarrow> JniBufferManager option" where
  "apply_op m (OpGetBuffer y uv new_ok alloc_ok) =
     map_option (\<lambda>r. snd (snd r)) (GetBuffer m y uv new_ok alloc_ok)"
| "apply_op m (OpAddBufferReference i) = AddBufferReference m i"
| "apply_op m (OpReleaseBuffer i) = map_option snd (ReleaseBuffer m i)"

fun run_ops :: "JniBufferManager \<Rightarrow> pool_op list \<Rightarrow> JniBufferManager option" where
  "run_ops m [] = Some m"
| "run_ops m (x # xs) = do { m' \<leftarrow> apply_op m x; run_ops m' xs }"

text \<open>The buffer that \<open>id'\<close> names is in use (its reference count is not zero).\<close>

definition in_use :: "JniBufferManager \<Rightarrow> int \<Rightarrow> bool" where
  "in_use m id' =
     (case Option.bind (GetBuffer_id m id') (deref m) of None \<Rightarrow> False | Some b \<Rightarrow> InUse b)"

text \<open>
  Along the run of the calls from \<open>m\<close>, every \<open>AddBufferReference\<close> is applied to a
  buffer that is in use at that moment.
\<close>

fun add_references_in_use :: "JniBufferManager \<Rightarrow> pool_op list \<Rightarrow> bool" where
  "add_references_in_use m [] = True"
| "add_references_in_use m (x # xs) =
     ((case x of OpAddBufferReference i \<Rightarrow> in_use m i | _ \<Rightarrow> True) \<and>
      (case apply_op m x of None \<Rightarrow> True | Some m' \<Rightarrow> add_references_in_use m' xs))"

text \<open>
  The invariant of the pool: the counts are ordered and bounded, every buffer on the
  free list has reference count zero, and the buffer in slot \<open>i\<close> of
  \<open>all_buffers_\<close> has the id \<open>i\<close>.
\<close>

definition free_slot_ok :: "JniBufferManager \<Rightarrow> int \<Rightarrow> bool" where
  "free_slot_ok m i =
     (case Option.bind (free_buffers_' m i) (deref m) of
        None \<Rightarrow> False
      | Some b \<Rightarrow> reference_count_' b = 0)"

definition id_slot_ok :: "JniBufferManager \<Rightarrow> int \<Rightarrow> bool" where
  "id_slot_ok m i =
     (case Option.bind (GetBuffer_id m i) (deref m) of
        None \<Rightarrow> False
      | Some b \<Rightarrow> BufferPrivateData b = i)"

definition pool_invariant :: "JniBufferManager \<Rightarrow> bool" where
  "pool_invariant m \<longleftrightarrow>
     0 \<le> free_buffer_count_' m \<and> free_buffer_count_' m \<le> all_buffer_count_' m
     \<and> all_buffer_count_' m \<le> kMaxFrames
     \<and> list_all (free_slot_ok m) [0..free_buffer_count_' m - 1]
     \<and> list_all (id_slot_ok m) [0..all_buffer_count_' m - 1]"

subsection \<open>States used in the proofs\<close>

text \<open>
  The free list as a list: the first \<open>free_buffer_count_\<close> slots of
  \<open>free_buffers_\<close>.
\<close>

definition free_list :: "JniBufferManager \<Rightarrow> nat option list" where
  "free_list m = map (free_buffers_' m) [0..free_buffer_count_' m - 1]"

text \<open>
  The inductive strengthening of \<open>pool_invariant\<close>: every created buffer is in
  \<open>objects\<close>, slot \<open>i\<close> points to the \<open>i\<close>-th of them, and the free list
  holds distinct created buffers of reference count zero.
\<close>

definition pool_consistent :: "JniBufferManager \<Rightarrow> bool" where
  "pool_consistent m \<longleftrightarrow>
     0 \<le> free_buffer_count_' m \<and> all_buffer_count_' m \<le> kMaxFrames
     \<and> int (length (objects m)) = all_buffer_count_' m
     \<and> (\<forall>i. 0 \<le> i \<and> i < all_buffer_count_' m \<longrightarrow>
            all_buffers_' m i = Some (nat i) \<and> id_' (objects m ! nat i) = i)
     \<and> (\<exists>xs. free_list m = map Some xs \<and> distinct xs
            \<and> (\<forall>a\<in>set xs. a < length (objects m) \<and> reference_count_' (objects m ! a) = 0))"

text \<open>An allocator that never fails.\<close>

definition all_ok :: "int \<Rightarrow> bool" where
  "all_ok plane_index = True"

text \<open>
  Two pools reached from the empty one: after one successful \<open>GetBuffer\<close>, and
  after 32 of them.
\<close>

definition pool_one :: JniBufferManager where
  "pool_one = the (run_ops JniBufferManager_new [OpGetBuffer 64 32 True all_ok])"

definition pool_full :: JniBufferManager where
  "pool_full = the (run_ops JniBufferManager_new (replicate 32 (OpGetBuffer 64 32 True all_ok)))"

text \<open>A context around \<open>pool_one\<close>, and an output buffer that holds buffer 0 of it.\<close>

definition context_one :: JniContext where
  "context_one =
     \<lparr> buffer_manager = pool_one, native_window = None, surface = None,
       native_window_width = 0, native_window_height = 0,
       avid_status_code = 0, jni_status_code = kJniStatusOk \<rparr>"

definition output_buffer_zero :: JOutputBuffer where
  "output_buffer_zero = \<lparr> decoderPrivate = 0, mode = kOutputModeSurfaceYuv, data = None \<rparr>"

text \<open>
  An 8-bit picture of 16 by 2 pixels with 8 by 1 chroma planes: the Y plane is block 1
  (stride 16), U is block 2 and V is block 3 (stride 8).
\<close>

definition picture_yuv :: Dav1dPicture where
  "picture_yuv =
     \<lparr> Dav1dPicture.data = ((1, 0), (2, 0), (3, 0)), Dav1dPicture.stride = (16, 8),
       p = \<lparr> w = 16, h = 2, bpc = 8 \<rparr> \<rparr>"

text \<open>
  A render of a 2 by 2 frame into a locked window buffer of stride 2 and height 2
  (block 9, 24 bytes): the frame buffer 0 of \<open>pool_one\<close> holds the picture
  \<open>picture_2x2\<close>, whose planes are the blocks 1 (Y), 2 (U) and 3 (V).
\<close>

definition picture_2x2 :: Dav1dPicture where
  "picture_2x2 =
     \<lparr> Dav1dPicture.data = ((1, 0), (2, 0), (3, 0)), Dav1dPicture.stride = (2, 1),
       p = \<lparr> w = 2, h = 2, bpc = 8 \<rparr> \<rparr>"

definition memory_2x2 :: memory where
  "memory_2x2 =
     (\<lambda>_. None)(1 \<mapsto> [10, 11, 12, 13], 2 \<mapsto> [20], 3 \<mapsto> [30], 9 \<mapsto> replicate 24 0)"

definition context_2x2 :: JniContext where
  "context_2x2 =
     context_one\<lparr>buffer_manager :=
       assign pool_one 0 (the (SetFrameData (the (deref pool_one 0)) picture_2x2))\<rparr>"

definition window_2x2 :: Render_host where
  "window_2x2 =
     \<lparr> ANativeWindow_fromSurface = (\<lambda>s. Some 7),
       ANativeWindow_setBuffersGeometry = (\<lambda>window width' height' format'. 0),
       ANativeWindow_lock =
         (\<lambda>window. (0, \<lparr> width = 2, height = 2, stride = 2, format = kImageFormatYV12,
                          bits = Some (9, 0) \<rparr>)),
       ANativeWindow_unlockAndPost = (\<lambda>window. 0) \<rparr>"

text \<open>
  A call of \<open>gav1GetFrame\<close> in the mode \<open>kOutputModeYuv\<close> on the empty pool: the
  decoder delivers \<open>picture_yuv\<close>, whose Y plane (block 1) holds the bytes 1 to 32,
  U (block 2) the bytes 101 to 108 and V (block 3) the bytes 201 to 208. The Java method
  \<open>initForYuvFrame\<close> gives the output buffer a zeroed direct byte buffer (block 9) of
  \<open>yStride * height + 2 * uvStride * ((height + 1) / 2)\<close> bytes.
\<close>

definition memory_yuv :: memory where
  "memory_yuv =
     (\<lambda>_. None)(1 \<mapsto> map of_nat [1..<33], 2 \<mapsto> map of_nat [101..<109],
                 3 \<mapsto> map of_nat [201..<209])"

definition host_yuv :: GetFrame_host where
  "host_yuv =
     \<lparr> dav1d_get_picture = (0, picture_yuv),
       new_frame_buffer_ok = True,
       new_plane_ok = all_ok,
       initForYuvFrame =
         (\<lambda>jOutputBuffer mem width' height' yStride uvStride colorspace.
            (True, False, jOutputBuffer\<lparr>data := Some (9, 0)\<rparr>,
             mem(9 \<mapsto> replicate (nat (yStride * height'
                                        + 2 * uvStride * cdiv (height' + 1) 2)) 0))),
       initForPrivateFrame = (\<lambda>jOutputBuffer width' height'. (False, jOutputBuffer)) \<rparr>"

definition context_new :: JniContext where
  "context_new =
     \<lparr> buffer_manager = JniBufferManager_new, native_window = None, surface = None,
       native_window_width = 0, native_window_height = 0,
       avid_status_code = 0, jni_status_code = kJniStatusOk \<rparr>"

definition output_buffer_yuv :: JOutputBuffer where
  "output_buffer_yuv = \<lparr> decoderPrivate = -1, mode = kOutputModeYuv, data = None \<rparr>"

text \<open>
  A 10-bit picture of 2 by 1 pixels whose Y plane (block 1) holds the samples 1 and
  1023, little-endian; block 9 is the data buffer.
\<close>

definition picture_10bit :: Dav1dPicture where
  "picture_10bit =
     \<lparr> Dav1dPicture.data = ((1, 0), (2, 0), (3, 0)), Dav1dPicture.stride = (4, 4),
       p = \<lparr> w = 2, h = 1, bpc = 10 \<rparr> \<rparr>"

definition memory_10bit :: memory where
  "memory_10bit =
     (\<lambda>_. None)(1 \<mapsto> [1, 0, 255, 3], 2 \<mapsto> [0, 2, 0, 2], 3 \<mapsto> [0, 2, 0, 2],
                 9 \<mapsto> replicate 8 7)"

section \<open>Properties\<close>

subsection \<open>The buffer pool\<close>

lemma MaybeReallocate_loop_keeps:
  "MaybeReallocate_loop alloc_ok y uv ps b = (ok, b1) \<Longrightarrow>
   reference_count_' b1 = reference_count_' b \<and> id_' b1 = id_' b"
  by (induction ps arbitrary: b) (auto simp: Let_def split: if_splits)

lemma MaybeReallocate_keeps:
  "MaybeReallocateGav1DataPlanes b y uv alloc_ok = (ok, b1) \<Longrightarrow>
   reference_count_' b1 = reference_count_' b \<and> id_' b1 = id_' b"
  unfolding MaybeReallocateGav1DataPlanes_def by (rule MaybeReallocate_loop_keeps)

lemma GetBuffer_finish_Some:
  assumes "GetBuffer_finish m a y uv alloc_ok = Some (st, out, m')"
  shows "\<exists>b ok b1. deref m a = Some b
    \<and> MaybeReallocateGav1DataPlanes b (int_of_size_t y) (int_of_size_t uv) alloc_ok = (ok, b1)
    \<and> st = (if ok then kJniStatusOk else kJniStatusOutOfMemory)
    \<and> out = (if ok then Some a else None)
    \<and> m' = assign m a (if ok then AddReference b1 else b1)"
proof -
  from assms obtain b where b: "deref m a = Some b"
    by (auto simp: GetBuffer_finish_def bind_eq_Some_conv)
  obtain ok b1 where
    r: "MaybeReallocateGav1DataPlanes b (int_of_size_t y) (int_of_size_t uv) alloc_ok = (ok, b1)"
    by (cases "MaybeReallocateGav1DataPlanes b (int_of_size_t y) (int_of_size_t uv) alloc_ok")
  from assms b r show ?thesis
    by (cases ok) (auto simp: GetBuffer_finish_def)
qed

lemma GetBuffer_pop:
  "free_buffer_count_' m \<noteq> 0 \<Longrightarrow>
   GetBuffer m y uv new_ok alloc_ok =
     Option.bind (array_read kMaxFrames (free_buffers_' m) (free_buffer_count_' m - 1))
       (\<lambda>a. GetBuffer_finish (m\<lparr>free_buffer_count_' := free_buffer_count_' m - 1\<rparr>)
               a y uv alloc_ok)"
  by (simp add: GetBuffer_def Let_def)

lemma GetBuffer_create:
  "free_buffer_count_' m = 0 \<Longrightarrow> all_buffer_count_' m < kMaxFrames \<Longrightarrow> new_ok \<Longrightarrow>
   GetBuffer m y uv new_ok alloc_ok =
     Option.bind
       (array_write kMaxFrames (all_buffers_' m) (all_buffer_count_' m) (length (objects m)))
       (\<lambda>arr. GetBuffer_finish
          (m\<lparr>objects := objects m @ [JniFrameBuffer_new (all_buffer_count_' m)],
              all_buffers_' := arr, all_buffer_count_' := all_buffer_count_' m + 1\<rparr>)
          (length (objects m)) y uv alloc_ok)"
  by (simp add: GetBuffer_def Let_def)

lemma GetBuffer_fail:
  "free_buffer_count_' m = 0 \<Longrightarrow> \<not> (all_buffer_count_' m < kMaxFrames \<and> new_ok) \<Longrightarrow>
   GetBuffer m y uv new_ok alloc_ok = Some (kJniStatusOutOfMemory, None, m)"
  by (auto simp add: GetBuffer_def)

lemma free_list_objects [simp]: "free_list (m\<lparr>objects := os\<rparr>) = free_list m"
  by (simp add: free_list_def)

lemma free_list_assign [simp]: "free_list (assign m a b) = free_list m"
  by (simp add: assign_def)

lemma free_list_pop:
  "0 < free_buffer_count_' m \<Longrightarrow>
   free_list m = free_list (m\<lparr>free_buffer_count_' := free_buffer_count_' m - 1\<rparr>)
                 @ [free_buffers_' m (free_buffer_count_' m - 1)]"
  by (simp add: free_list_def upto_rec2 [of 0 "free_buffer_count_' m - 1"])

lemma free_list_push:
  "0 \<le> free_buffer_count_' m \<Longrightarrow>
   free_list (m\<lparr>free_buffers_' := (free_buffers_' m)(free_buffer_count_' m \<mapsto> a),
               free_buffer_count_' := free_buffer_count_' m + 1\<rparr>) = free_list m @ [Some a]"
  by (simp add: free_list_def upto_rec2 [of 0 "free_buffer_count_' m"])

lemma pool_consistent_new: "pool_consistent JniBufferManager_new"
  by (simp add: pool_consistent_def JniBufferManager_new_def free_list_def kMaxFrames_def)

lemma pool_consistent_free_le:
  assumes "pool_consistent m"
  shows "free_buffer_count_' m \<le> all_buffer_count_' m"
proof -
  from assms obtain xs where xs: "free_list m = map Some xs" "distinct xs"
    "\<forall>a\<in>set xs. a < length (objects m)"
    and len: "int (length (objects m)) = all_buffer_count_' m"
    and nn: "0 \<le> free_buffer_count_' m"
    by (auto simp: pool_consistent_def)
  have "length (free_list m) = nat (free_buffer_count_' m)"
    by (simp add: free_list_def)
  with xs(1) have l: "length xs = nat (free_buffer_count_' m)" by (metis length_map)
  have "set xs \<subseteq> {..<length (objects m)}" using xs(3) by auto
  then have "card (set xs) \<le> length (objects m)"
    by (metis card_lessThan card_mono finite_lessThan)
  with xs(2) have "length xs \<le> length (objects m)" by (simp add: distinct_card)
  with l len nn show ?thesis by linarith
qed

lemma pool_consistent_invariant:
  assumes "pool_consistent m"
  shows "pool_invariant m"
proof -
  from assms obtain xs where xs: "free_list m = map Some xs"
    "\<forall>a\<in>set xs. a < length (objects m) \<and> reference_count_' (objects m ! a) = 0"
    by (auto simp: pool_consistent_def)
  have free: "free_slot_ok m i" if "i \<in> set [0..free_buffer_count_' m - 1]" for i
  proof -
    from that have "free_buffers_' m i \<in> set (free_list m)" by (simp add: free_list_def)
    with xs(1) obtain a where "free_buffers_' m i = Some a" "a \<in> set xs" by auto
    with xs(2) show ?thesis by (simp add: free_slot_ok_def deref_def)
  qed
  have ids: "id_slot_ok m i" if "i \<in> set [0..all_buffer_count_' m - 1]" for i
  proof -
    from that have i: "0 \<le> i" "i < all_buffer_count_' m" by auto
    with assms have "all_buffers_' m i = Some (nat i)" "id_' (objects m ! nat i) = i"
      "nat i < length (objects m)" "i < kMaxFrames"
      by (auto simp: pool_consistent_def)
    with i show ?thesis
      by (simp add: id_slot_ok_def GetBuffer_id_def array_read_def deref_def
            BufferPrivateData_def)
  qed
  from assms free ids pool_consistent_free_le [OF assms] show ?thesis
    by (simp add: pool_invariant_def pool_consistent_def list_all_iff)
qed

lemma pool_consistent_assign:
  assumes "pool_consistent m" and "Some a \<notin> set (free_list m) \<or> reference_count_' b = 0"
    and "a < length (objects m) \<Longrightarrow> id_' b = id_' (objects m ! a)"
  shows "pool_consistent (assign m a b)"
proof -
  from assms(1) obtain xs where xs: "free_list m = map Some xs" "distinct xs"
    "\<forall>c\<in>set xs. c < length (objects m) \<and> reference_count_' (objects m ! c) = 0"
    by (auto simp: pool_consistent_def)
  have "\<forall>c\<in>set xs. c < length (objects m) \<and> reference_count_' ((objects m)[a := b] ! c) = 0"
  proof
    fix c assume c: "c \<in> set xs"
    with xs(1) have "Some c \<in> set (free_list m)" by simp
    with assms(2) c xs(3)
    show "c < length (objects m) \<and> reference_count_' ((objects m)[a := b] ! c) = 0"
      by (cases "c = a") auto
  qed
  with xs have fr: "\<exists>xs. free_list (assign m a b) = map Some xs \<and> distinct xs
     \<and> (\<forall>c\<in>set xs. c < length (objects (assign m a b))
          \<and> reference_count_' (objects (assign m a b) ! c) = 0)"
    by (auto simp: assign_def)
  have "id_' ((objects m)[a := b] ! nat i) = i"
    if "0 \<le> i" "i < all_buffer_count_' m" for i
    using that assms(1,3) by (cases "nat i = a") (auto simp: pool_consistent_def)
  with assms(1) fr show ?thesis
    unfolding pool_consistent_def by (simp add: assign_def)
qed

lemma GetBuffer_finish_consistent:
  assumes "GetBuffer_finish m a y uv alloc_ok = Some (st, out, m')" and "pool_consistent m"
    and "Some a \<notin> set (free_list m)"
  shows "pool_consistent m'"
proof -
  from assms(1) obtain b ok b1 where b: "deref m a = Some b"
    and r: "MaybeReallocateGav1DataPlanes b (int_of_size_t y) (int_of_size_t uv) alloc_ok
            = (ok, b1)"
    and m': "m' = assign m a (if ok then AddReference b1 else b1)"
    by (auto dest!: GetBuffer_finish_Some)
  from b have "b = objects m ! a" by (auto simp: deref_def split: if_splits)
  with MaybeReallocate_keeps [OF r]
  have "id_' (if ok then AddReference b1 else b1) = id_' (objects m ! a)"
    by (simp add: AddReference_def)
  with assms(3) show ?thesis unfolding m'
    by (auto intro!: pool_consistent_assign [OF assms(2)])
qed

lemma pool_consistent_pop:
  assumes "pool_consistent m" and "free_buffer_count_' m \<noteq> 0"
  shows "pool_consistent (m\<lparr>free_buffer_count_' := free_buffer_count_' m - 1\<rparr>)
    \<and> free_buffers_' m (free_buffer_count_' m - 1) \<noteq> None
    \<and> free_buffers_' m (free_buffer_count_' m - 1)
        \<notin> set (free_list (m\<lparr>free_buffer_count_' := free_buffer_count_' m - 1\<rparr>))"
proof -
  let ?m1 = "m\<lparr>free_buffer_count_' := free_buffer_count_' m - 1\<rparr>"
  from assms have pos: "0 < free_buffer_count_' m" by (simp add: pool_consistent_def)
  from assms(1) obtain xs where xs: "free_list m = map Some xs" "distinct xs"
    "\<forall>c\<in>set xs. c < length (objects m) \<and> reference_count_' (objects m ! c) = 0"
    by (auto simp: pool_consistent_def)
  from free_list_pop [OF pos] xs(1)
  have eq: "map Some xs = free_list ?m1 @ [free_buffers_' m (free_buffer_count_' m - 1)]"
    by simp
  then have "xs \<noteq> []" by auto
  then obtain ys a where ya: "xs = ys @ [a]" by (metis rev_exhaust)
  with eq have fl: "free_list ?m1 = map Some ys"
    and top: "free_buffers_' m (free_buffer_count_' m - 1) = Some a"
    by auto
  from ya xs(2) have "a \<notin> set ys" "distinct ys" by auto
  moreover from ya xs(3)
  have "\<forall>c\<in>set ys. c < length (objects ?m1) \<and> reference_count_' (objects ?m1 ! c) = 0"
    by simp
  ultimately have "pool_consistent ?m1"
    using assms(1) pos fl unfolding pool_consistent_def by auto
  moreover from fl top \<open>a \<notin> set ys\<close>
  have "free_buffers_' m (free_buffer_count_' m - 1) \<notin> set (free_list ?m1)" by auto
  ultimately show ?thesis using top by simp
qed

lemma pool_consistent_create:
  assumes "pool_consistent m" and "free_buffer_count_' m = 0"
    and "all_buffer_count_' m < kMaxFrames"
  shows "pool_consistent
           (m\<lparr>objects := objects m @ [JniFrameBuffer_new (all_buffer_count_' m)],
              all_buffers_' := (all_buffers_' m)(all_buffer_count_' m \<mapsto> length (objects m)),
              all_buffer_count_' := all_buffer_count_' m + 1\<rparr>)"
proof -
  from assms(1) have len: "int (length (objects m)) = all_buffer_count_' m"
    and old: "\<And>i. 0 \<le> i \<Longrightarrow> i < all_buffer_count_' m \<Longrightarrow>
                all_buffers_' m i = Some (nat i) \<and> id_' (objects m ! nat i) = i"
    by (auto simp: pool_consistent_def)
  have new: "id_' (JniFrameBuffer_new (all_buffer_count_' m)) = all_buffer_count_' m"
    by (simp add: JniFrameBuffer_new_def)
  have "(if i = all_buffer_count_' m then Some (length (objects m)) else all_buffers_' m i)
          = Some (nat i)
        \<and> id_' ((objects m @ [JniFrameBuffer_new (all_buffer_count_' m)]) ! nat i) = i"
    if "0 \<le> i" "i < all_buffer_count_' m + 1" for i
  proof (cases "i = all_buffer_count_' m")
    case True
    with len new show ?thesis by (auto simp: nth_append)
  next
    case False
    with that len have "nat i < length (objects m)" by linarith
    with that False old [of i] show ?thesis by (simp add: nth_append)
  qed
  with assms len show ?thesis
    unfolding pool_consistent_def by (simp add: free_list_def)
qed

lemma GetBuffer_consistent:
  assumes "GetBuffer m y uv new_ok alloc_ok = Some (st, out, m')" and "pool_consistent m"
  shows "pool_consistent m'"
proof (cases "free_buffer_count_' m \<noteq> 0")
  case True
  let ?m1 = "m\<lparr>free_buffer_count_' := free_buffer_count_' m - 1\<rparr>"
  from assms(1) obtain a
    where a: "array_read kMaxFrames (free_buffers_' m) (free_buffer_count_' m - 1) = Some a"
    and fin: "GetBuffer_finish ?m1 a y uv alloc_ok = Some (st, out, m')"
    unfolding GetBuffer_pop [OF True] by (auto simp: bind_eq_Some_conv)
  from a have "free_buffers_' m (free_buffer_count_' m - 1) = Some a"
    by (simp add: array_read_def split: if_splits)
  with pool_consistent_pop [OF assms(2) True]
  have "pool_consistent ?m1" "Some a \<notin> set (free_list ?m1)" by auto
  with fin show ?thesis by (rule GetBuffer_finish_consistent)
next
  case False
  then have z: "free_buffer_count_' m = 0" by simp
  show ?thesis
  proof (cases "all_buffer_count_' m < kMaxFrames \<and> new_ok")
    case True
    let ?m2 = "m\<lparr>objects := objects m @ [JniFrameBuffer_new (all_buffer_count_' m)],
              all_buffers_' := (all_buffers_' m)(all_buffer_count_' m \<mapsto> length (objects m)),
              all_buffer_count_' := all_buffer_count_' m + 1\<rparr>"
    from True have lt: "all_buffer_count_' m < kMaxFrames" and ok: new_ok by auto
    from assms(1)
    have fin: "GetBuffer_finish ?m2 (length (objects m)) y uv alloc_ok = Some (st, out, m')"
      unfolding GetBuffer_create [OF z lt ok]
      by (auto simp: array_write_def bind_eq_Some_conv split: if_splits)
    from assms(2) z lt have "pool_consistent ?m2" by (rule pool_consistent_create)
    moreover from z have "Some (length (objects m)) \<notin> set (free_list ?m2)"
      by (simp add: free_list_def)
    ultimately show ?thesis by (rule GetBuffer_finish_consistent [OF fin])
  next
    case False
    from assms show ?thesis unfolding GetBuffer_fail [OF z False] by simp
  qed
qed

lemma in_use_not_free:
  assumes "pool_consistent m" and "a < length (objects m)"
    and "reference_count_' (objects m ! a) \<noteq> 0"
  shows "Some a \<notin> set (free_list m)"
  using assms by (auto simp: pool_consistent_def)

lemma AddBufferReference_consistent:
  assumes "AddBufferReference m i = Some m'" and "pool_consistent m" and "in_use m i"
  shows "pool_consistent m'"
proof -
  from assms(1) obtain a b where a: "array_read kMaxFrames (all_buffers_' m) i = Some a"
    and b: "deref m a = Some b" and m': "m' = assign m a (AddReference b)"
    by (auto simp: AddBufferReference_def bind_eq_Some_conv)
  from b have lt: "a < length (objects m)" and bo: "b = objects m ! a"
    by (auto simp: deref_def split: if_splits)
  from assms(3) a b have "reference_count_' b \<noteq> 0"
    by (simp add: in_use_def GetBuffer_id_def InUse_def)
  with assms(2) lt bo have "Some a \<notin> set (free_list m)"
    using in_use_not_free [of m a] by auto
  with bo show ?thesis unfolding m'
    by (auto intro!: pool_consistent_assign [OF assms(2)] simp: AddReference_def)
qed

lemma ReleaseBuffer_consistent:
  assumes "ReleaseBuffer m i = Some (st, m')" and "pool_consistent m"
  shows "pool_consistent m'"
proof -
  from assms(1) obtain a b where a: "array_read kMaxFrames (all_buffers_' m) i = Some a"
    and b: "deref m a = Some b"
    by (auto simp: ReleaseBuffer_def bind_eq_Some_conv)
  from b have lt: "a < length (objects m)" and bo: "b = objects m ! a"
    by (auto simp: deref_def split: if_splits)
  show ?thesis
  proof (cases "reference_count_' b = 0")
    case True
    with assms a b show ?thesis by (simp add: ReleaseBuffer_def InUse_def)
  next
    case False
    let ?m1 = "assign m a (RemoveReference b)"
    from False assms(2) lt bo have nf: "Some a \<notin> set (free_list m)"
      using in_use_not_free [of m a] by auto
    with bo have c1: "pool_consistent ?m1"
      by (auto intro!: pool_consistent_assign [OF assms(2)] simp: RemoveReference_def)
    show ?thesis
    proof (cases "reference_count_' b = 1")
      case False
      with \<open>reference_count_' b \<noteq> 0\<close> assms(1) a b c1 show ?thesis
        by (auto simp: ReleaseBuffer_def InUse_def RemoveReference_def Let_def)
    next
      case True
      let ?m2 = "?m1\<lparr>free_buffers_' := (free_buffers_' ?m1)(free_buffer_count_' ?m1 \<mapsto> a),
                      free_buffer_count_' := free_buffer_count_' ?m1 + 1\<rparr>"
      from True assms(1) a b have m': "m' = ?m2"
        by (auto simp: ReleaseBuffer_def InUse_def RemoveReference_def Let_def array_write_def
              bind_eq_Some_conv split: if_splits)
      from c1 obtain xs where xs: "free_list ?m1 = map Some xs" "distinct xs"
        "\<forall>c\<in>set xs. c < length (objects ?m1) \<and> reference_count_' (objects ?m1 ! c) = 0"
        and nn: "0 \<le> free_buffer_count_' ?m1"
        by (auto simp: pool_consistent_def)
      from nf xs(1) have "a \<notin> set xs" by auto
      from free_list_push [OF nn, of a] xs(1)
      have fl: "free_list ?m2 = map Some (xs @ [a])" by simp
      have "reference_count_' (objects ?m1 ! a) = 0" using True lt
        by (simp add: assign_def RemoveReference_def)
      with xs \<open>a \<notin> set xs\<close> lt
      have "distinct (xs @ [a]) \<and> (\<forall>c\<in>set (xs @ [a]). c < length (objects ?m2)
              \<and> reference_count_' (objects ?m2 ! c) = 0)"
        by (auto simp: assign_def)
      with fl have "\<exists>zs. free_list ?m2 = map Some zs \<and> distinct zs
              \<and> (\<forall>c\<in>set zs. c < length (objects ?m2)
                    \<and> reference_count_' (objects ?m2 ! c) = 0)" by blast
      with c1 show ?thesis unfolding m' pool_consistent_def by simp
    qed
  qed
qed

lemma apply_op_consistent:
  assumes "apply_op m x = Some m'" and "pool_consistent m"
    and "case x of OpAddBufferReference i \<Rightarrow> in_use m i | _ \<Rightarrow> True"
  shows "pool_consistent m'"
proof (cases x)
  case (OpGetBuffer y uv new_ok alloc_ok)
  with assms(1) obtain st out where "GetBuffer m y uv new_ok alloc_ok = Some (st, out, m')"
    by auto
  then show ?thesis using assms(2) by (rule GetBuffer_consistent)
next
  case (OpAddBufferReference i)
  with assms show ?thesis by (auto intro: AddBufferReference_consistent)
next
  case (OpReleaseBuffer i)
  with assms(1) obtain st where "ReleaseBuffer m i = Some (st, m')" by auto
  then show ?thesis using assms(2) by (rule ReleaseBuffer_consistent)
qed

lemma run_ops_consistent:
  "pool_consistent m \<Longrightarrow> add_references_in_use m ops \<Longrightarrow> run_ops m ops = Some m'
   \<Longrightarrow> pool_consistent m'"
proof (induction ops arbitrary: m)
  case Nil
  then show ?case by simp
next
  case (Cons x xs)
  from Cons.prems(3) obtain m1 where m1: "apply_op m x = Some m1"
    and r: "run_ops m1 xs = Some m'"
    by (auto simp: bind_eq_Some_conv)
  from Cons.prems(2) m1
  have g: "case x of OpAddBufferReference i \<Rightarrow> in_use m i | _ \<Rightarrow> True"
    and rest: "add_references_in_use m1 xs" by auto
  from m1 Cons.prems(1) g have "pool_consistent m1" by (rule apply_op_consistent)
  then show ?case using rest r by (rule Cons.IH)
qed

lemma plane_indices:
  "[kPlaneY..kMaxPlanes - 1] = [0, 1, 2]" "[kPlaneY..3 - 1] = [0, 1, 2]"
  "[kPlaneY..2] = [0, 1, 2]"
  by (simp_all add: kPlaneY_def kMaxPlanes_def upto.simps)

lemma run_ops_append:
  "run_ops m (xs @ ys) = Option.bind (run_ops m xs) (\<lambda>m'. run_ops m' ys)"
  by (induction xs arbitrary: m) (auto split: bind_split)

lemma GetBuffer_full:
  "free_buffer_count_' m = 0 \<Longrightarrow> all_buffer_count_' m = kMaxFrames \<Longrightarrow>
   GetBuffer m y uv new_ok alloc_ok = Some (kJniStatusOutOfMemory, None, m)"
  by (simp add: GetBuffer_def)

lemma GetBuffer_finish_count:
  "GetBuffer_finish m a y uv alloc_ok = Some (st, out, m') \<Longrightarrow>
   all_buffer_count_' m' = all_buffer_count_' m \<and> free_buffer_count_' m' = free_buffer_count_' m
   \<and> all_buffers_' m' = all_buffers_' m \<and> free_buffers_' m' = free_buffers_' m
   \<and> length (objects m') = length (objects m)"
  by (auto dest!: GetBuffer_finish_Some simp: assign_def)

lemma GetBuffer_count_le:
  assumes "GetBuffer m y uv new_ok alloc_ok = Some (st, out, m')"
    and "all_buffer_count_' m \<le> kMaxFrames"
  shows "all_buffer_count_' m' \<le> kMaxFrames"
proof (cases "free_buffer_count_' m \<noteq> 0")
  case True
  from assms(1) show ?thesis unfolding GetBuffer_pop [OF True]
    using assms(2) by (auto simp: bind_eq_Some_conv dest!: GetBuffer_finish_count)
next
  case False
  then have z: "free_buffer_count_' m = 0" by simp
  show ?thesis
  proof (cases "all_buffer_count_' m < kMaxFrames \<and> new_ok")
    case True
    then have lt: "all_buffer_count_' m < kMaxFrames" and ok: new_ok by auto
    from assms(1) show ?thesis unfolding GetBuffer_create [OF z lt ok]
      using lt by (auto simp: bind_eq_Some_conv dest!: GetBuffer_finish_count)
  next
    case False
    from assms show ?thesis unfolding GetBuffer_fail [OF z False] by simp
  qed
qed

lemma AddBufferReference_count:
  "AddBufferReference m i = Some m' \<Longrightarrow> all_buffer_count_' m' = all_buffer_count_' m"
  by (auto simp: AddBufferReference_def assign_def bind_eq_Some_conv)

lemma ReleaseBuffer_count:
  "ReleaseBuffer m i = Some (st, m') \<Longrightarrow> all_buffer_count_' m' = all_buffer_count_' m"
  by (auto simp: ReleaseBuffer_def assign_def Let_def bind_eq_Some_conv split: if_splits)

lemma apply_op_count_le:
  assumes "apply_op m x = Some m'" and "all_buffer_count_' m \<le> kMaxFrames"
  shows "all_buffer_count_' m' \<le> kMaxFrames"
proof (cases x)
  case (OpGetBuffer y uv new_ok alloc_ok)
  with assms(1) obtain st out where "GetBuffer m y uv new_ok alloc_ok = Some (st, out, m')"
    by auto
  then show ?thesis using assms(2) by (rule GetBuffer_count_le)
next
  case (OpAddBufferReference i)
  with assms show ?thesis by (auto dest: AddBufferReference_count)
next
  case (OpReleaseBuffer i)
  with assms show ?thesis by (auto dest: ReleaseBuffer_count)
qed

lemma run_ops_count_le:
  "run_ops m ops = Some m' \<Longrightarrow> all_buffer_count_' m \<le> kMaxFrames
   \<Longrightarrow> all_buffer_count_' m' \<le> kMaxFrames"
proof (induction ops arbitrary: m)
  case Nil
  then show ?case by simp
next
  case (Cons x xs)
  from Cons.prems(1) obtain m1 where m1: "apply_op m x = Some m1"
    and r: "run_ops m1 xs = Some m'"
    by (auto simp: bind_eq_Some_conv)
  from m1 Cons.prems(2) have "all_buffer_count_' m1 \<le> kMaxFrames" by (rule apply_op_count_le)
  with r show ?case by (rule Cons.IH)
qed

lemma result_pair: "map_option fst r = Some a \<Longrightarrow> r = Some (a, snd (the r))"
  by (cases r) auto

lemma result_triple:
  "map_option fst r = Some a \<Longrightarrow> r = Some (a, fst (snd (the r)), snd (snd (the r)))"
  by (cases r) auto

text \<open>
  C2: \<open>GetBuffer\<close> answers \<open>kJniStatusOutOfMemory\<close>, and leaves the pool as it
  is, when the free list is empty and 32 buffers have been created; no call makes the
  number of created buffers exceed 32, neither one call from a state within the cap
  nor any sequence of calls from the empty pool.
\<close>

theorem GetBuffer_hard_cap:
  "(free_buffer_count_' m = 0 \<and> all_buffer_count_' m = kMaxFrames \<longrightarrow>
      GetBuffer m y uv new_ok alloc_ok = Some (kJniStatusOutOfMemory, None, m))
   \<and> (all_buffer_count_' m \<le> kMaxFrames \<and> apply_op m x = Some m' \<longrightarrow>
        all_buffer_count_' m' \<le> kMaxFrames)
   \<and> (run_ops JniBufferManager_new ops = Some m'' \<longrightarrow> all_buffer_count_' m'' \<le> kMaxFrames)"
proof (intro conjI impI)
  assume "free_buffer_count_' m = 0 \<and> all_buffer_count_' m = kMaxFrames"
  then show "GetBuffer m y uv new_ok alloc_ok = Some (kJniStatusOutOfMemory, None, m)"
    by (simp add: GetBuffer_full)
next
  assume "all_buffer_count_' m \<le> kMaxFrames \<and> apply_op m x = Some m'"
  then show "all_buffer_count_' m' \<le> kMaxFrames" by (auto intro: apply_op_count_le)
next
  assume "run_ops JniBufferManager_new ops = Some m''"
  then show "all_buffer_count_' m'' \<le> kMaxFrames"
    by (rule run_ops_count_le) (simp add: JniBufferManager_new_def kMaxFrames_def)
qed

theorem GetBuffer_hard_cap_witness:
  "free_buffer_count_' pool_full = 0 \<and> all_buffer_count_' pool_full = kMaxFrames
   \<and> GetBuffer pool_full 64 32 True all_ok = Some (kJniStatusOutOfMemory, None, pool_full)
   \<and> apply_op pool_full (OpGetBuffer 64 32 True all_ok) = Some pool_full
   \<and> run_ops JniBufferManager_new (replicate 33 (OpGetBuffer 64 32 True all_ok)) = Some pool_full
   \<and> all_buffer_count_' pool_full \<le> kMaxFrames"
proof -
  have f: "free_buffer_count_' pool_full = 0" by code_simp
  have a: "all_buffer_count_' pool_full = kMaxFrames" by code_simp
  have r: "run_ops JniBufferManager_new (replicate 32 (OpGetBuffer 64 32 True all_ok)) \<noteq> None"
    by code_simp
  then have r32: "run_ops JniBufferManager_new (replicate 32 (OpGetBuffer 64 32 True all_ok))
                  = Some pool_full"
    by (auto simp: pool_full_def)
  note cap = GetBuffer_hard_cap [of pool_full 64 32 True all_ok
      "OpGetBuffer 64 32 True all_ok" pool_full
      "replicate 33 (OpGetBuffer 64 32 True all_ok)" pool_full]
  from cap f a have g: "GetBuffer pool_full 64 32 True all_ok
                        = Some (kJniStatusOutOfMemory, None, pool_full)" by blast
  then have s: "apply_op pool_full (OpGetBuffer 64 32 True all_ok) = Some pool_full" by simp
  have "replicate (32 + 1) (OpGetBuffer 64 32 True all_ok)
        = replicate 32 (OpGetBuffer 64 32 True all_ok) @ replicate 1 (OpGetBuffer 64 32 True all_ok)"
    by (rule replicate_add)
  then have "replicate 33 (OpGetBuffer 64 32 True all_ok)
        = replicate 32 (OpGetBuffer 64 32 True all_ok) @ [OpGetBuffer 64 32 True all_ok]"
    by simp
  with r32 s have r33: "run_ops JniBufferManager_new (replicate 33 (OpGetBuffer 64 32 True all_ok))
                        = Some pool_full"
    by (simp add: run_ops_append)
  from cap r33 have "all_buffer_count_' pool_full \<le> kMaxFrames" by blast
  with f a g s r33 show ?thesis by simp
qed

lemma in_use_free_count_less:
  assumes "pool_consistent m" and "a < length (objects m)"
    and "reference_count_' (objects m ! a) \<noteq> 0"
  shows "free_buffer_count_' m < kMaxFrames"
proof -
  from assms(1) obtain xs where xs: "free_list m = map Some xs" "distinct xs"
    "\<forall>c\<in>set xs. c < length (objects m) \<and> reference_count_' (objects m ! c) = 0"
    and len: "int (length (objects m)) = all_buffer_count_' m"
    and cap: "all_buffer_count_' m \<le> kMaxFrames" and nn: "0 \<le> free_buffer_count_' m"
    by (auto simp: pool_consistent_def)
  have "length (free_list m) = nat (free_buffer_count_' m)"
    by (simp add: free_list_def)
  with xs(1) have l: "length xs = nat (free_buffer_count_' m)" by (metis length_map)
  from xs(3) assms(3) have "a \<notin> set xs" by auto
  with xs(3) assms(2) have "set xs \<subset> {..<length (objects m)}" by auto
  then have "card (set xs) < length (objects m)"
    by (metis card_lessThan finite_lessThan psubset_card_mono)
  with xs(2) have "length xs < length (objects m)" by (simp add: distinct_card)
  with l len cap nn show ?thesis by linarith
qed

text \<open>
  C3: for the id of a created buffer, \<open>ReleaseBuffer\<close> answers
  \<open>kJniStatusBufferAlreadyReleased\<close> and leaves the whole pool unchanged when the
  reference count is zero; otherwise it decrements the count and answers
  \<open>kJniStatusOk\<close>, and it appends the buffer to the free list exactly when the new
  count is zero. The append writes slot \<open>free_buffer_count_\<close> of the array of 32,
  and there is room for it in every consistent pool.
\<close>

theorem ReleaseBuffer_reference_count:
  assumes "GetBuffer_id m id' = Some a" and "deref m a = Some b"
  shows "(reference_count_' b = 0 \<longrightarrow>
            ReleaseBuffer m id' = Some (kJniStatusBufferAlreadyReleased, m))
    \<and> (reference_count_' b \<noteq> 0 \<and> reference_count_' b \<noteq> 1 \<longrightarrow>
          ReleaseBuffer m id'
          = Some (kJniStatusOk, assign m a (b\<lparr>reference_count_' := reference_count_' b - 1\<rparr>)))
    \<and> (reference_count_' b = 1 \<and> 0 \<le> free_buffer_count_' m
          \<and> free_buffer_count_' m < kMaxFrames \<longrightarrow>
          ReleaseBuffer m id'
          = Some (kJniStatusOk,
                  (assign m a (b\<lparr>reference_count_' := 0\<rparr>))
                    \<lparr>free_buffers_' := (free_buffers_' m)(free_buffer_count_' m \<mapsto> a),
                     free_buffer_count_' := free_buffer_count_' m + 1\<rparr>))
    \<and> (pool_consistent m \<and> reference_count_' b \<noteq> 0 \<longrightarrow>
          0 \<le> free_buffer_count_' m \<and> free_buffer_count_' m < kMaxFrames)"
proof -
  have room: "0 \<le> free_buffer_count_' m \<and> free_buffer_count_' m < kMaxFrames"
    if c: "pool_consistent m \<and> reference_count_' b \<noteq> 0"
  proof -
    from assms(2) have "a < length (objects m)" "b = objects m ! a"
      by (auto simp: deref_def split: if_splits)
    with c have "free_buffer_count_' m < kMaxFrames"
      using in_use_free_count_less [of m a] by auto
    moreover from c have "0 \<le> free_buffer_count_' m" by (simp add: pool_consistent_def)
    ultimately show ?thesis by simp
  qed
  from assms have
    "(reference_count_' b = 0 \<longrightarrow>
            ReleaseBuffer m id' = Some (kJniStatusBufferAlreadyReleased, m))
    \<and> (reference_count_' b \<noteq> 0 \<and> reference_count_' b \<noteq> 1 \<longrightarrow>
          ReleaseBuffer m id'
          = Some (kJniStatusOk, assign m a (b\<lparr>reference_count_' := reference_count_' b - 1\<rparr>)))
    \<and> (reference_count_' b = 1 \<and> 0 \<le> free_buffer_count_' m
          \<and> free_buffer_count_' m < kMaxFrames \<longrightarrow>
          ReleaseBuffer m id'
          = Some (kJniStatusOk,
                  (assign m a (b\<lparr>reference_count_' := 0\<rparr>))
                    \<lparr>free_buffers_' := (free_buffers_' m)(free_buffer_count_' m \<mapsto> a),
                     free_buffer_count_' := free_buffer_count_' m + 1\<rparr>))"
    by (simp add: ReleaseBuffer_def GetBuffer_id_def InUse_def RemoveReference_def Let_def
          array_write_def assign_def)
  with room show ?thesis by blast
qed

lemma pool_one_consistent: "pool_consistent pool_one"
proof -
  have a: "add_references_in_use JniBufferManager_new [OpGetBuffer 64 32 True all_ok]"
    by code_simp
  have "run_ops JniBufferManager_new [OpGetBuffer 64 32 True all_ok] \<noteq> None" by code_simp
  then have "run_ops JniBufferManager_new [OpGetBuffer 64 32 True all_ok] = Some pool_one"
    by (auto simp: pool_one_def)
  with pool_consistent_new a show ?thesis by (rule run_ops_consistent)
qed

theorem ReleaseBuffer_reference_count_witness:
  "GetBuffer_id pool_one 0 = Some 0
   \<and> map_option reference_count_' (deref pool_one 0) = Some 1
   \<and> map_option fst (ReleaseBuffer pool_one 0) = Some kJniStatusOk
   \<and> map_option (free_buffer_count_' \<circ> snd) (ReleaseBuffer pool_one 0) = Some 1
   \<and> map_option (\<lambda>r. free_buffers_' (snd r) 0) (ReleaseBuffer pool_one 0) = Some (Some 0)
   \<and> map_option fst (ReleaseBuffer (snd (the (ReleaseBuffer pool_one 0))) 0)
       = Some kJniStatusBufferAlreadyReleased"
proof -
  let ?m1 = "snd (the (ReleaseBuffer pool_one 0))"
  have g: "GetBuffer_id pool_one 0 = Some 0" by code_simp
  have "map_option reference_count_' (deref pool_one 0) = Some 1" by code_simp
  then obtain b where b: "deref pool_one 0 = Some b" and rc: "reference_count_' b = 1"
    by (cases "deref pool_one 0") auto
  from ReleaseBuffer_reference_count [OF g b] rc pool_one_consistent
  have fc: "0 \<le> free_buffer_count_' pool_one \<and> free_buffer_count_' pool_one < kMaxFrames"
    by simp
  have fc0: "free_buffer_count_' pool_one = 0" by code_simp
  from ReleaseBuffer_reference_count [OF g b] rc fc
  have r: "ReleaseBuffer pool_one 0
       = Some (kJniStatusOk,
               (assign pool_one 0 (b\<lparr>reference_count_' := 0\<rparr>))
                 \<lparr>free_buffers_' := (free_buffers_' pool_one)(free_buffer_count_' pool_one \<mapsto> 0),
                  free_buffer_count_' := free_buffer_count_' pool_one + 1\<rparr>)"
    by blast
  have g1: "GetBuffer_id ?m1 0 = Some 0" by code_simp
  have "map_option reference_count_' (deref ?m1 0) = Some 0" by code_simp
  then obtain b1 where b1: "deref ?m1 0 = Some b1" and rc1: "reference_count_' b1 = 0"
    by (cases "deref ?m1 0") auto
  from ReleaseBuffer_reference_count [OF g1 b1] rc1
  have "ReleaseBuffer ?m1 0 = Some (kJniStatusBufferAlreadyReleased, ?m1)" by blast
  with g b rc r fc0 show ?thesis by simp
qed

lemma GetBuffer_pop_result:
  assumes "free_buffer_count_' m \<noteq> 0"
    and "GetBuffer m y uv new_ok alloc_ok = Some (kJniStatusOk, out, m')"
  shows "out = free_buffers_' m (free_buffer_count_' m - 1)
    \<and> free_buffer_count_' m' = free_buffer_count_' m - 1
    \<and> all_buffer_count_' m' = all_buffer_count_' m
    \<and> length (objects m') = length (objects m)
    \<and> (\<exists>a. out = Some a \<and> a < length (objects m)
           \<and> reference_count_' (objects m' ! a) = reference_count_' (objects m ! a) + 1)"
proof -
  let ?m1 = "m\<lparr>free_buffer_count_' := free_buffer_count_' m - 1\<rparr>"
  from assms(2) obtain a
    where a: "array_read kMaxFrames (free_buffers_' m) (free_buffer_count_' m - 1) = Some a"
    and fin: "GetBuffer_finish ?m1 a y uv alloc_ok = Some (kJniStatusOk, out, m')"
    unfolding GetBuffer_pop [OF assms(1)] by (auto simp: bind_eq_Some_conv)
  from a have top: "free_buffers_' m (free_buffer_count_' m - 1) = Some a"
    by (simp add: array_read_def split: if_splits)
  from GetBuffer_finish_Some [OF fin] obtain b ok b1 where b: "deref ?m1 a = Some b"
    and r: "MaybeReallocateGav1DataPlanes b (int_of_size_t y) (int_of_size_t uv) alloc_ok
            = (ok, b1)"
    and st: "kJniStatusOk = (if ok then kJniStatusOk else kJniStatusOutOfMemory)"
    and out: "out = (if ok then Some a else None)"
    and m': "m' = assign ?m1 a (if ok then AddReference b1 else b1)"
    by blast
  from st have ok by (cases ok) auto
  from b have lt: "a < length (objects m)" and bo: "b = objects m ! a"
    by (auto simp: deref_def split: if_splits)
  from MaybeReallocate_keeps [OF r] bo
  have "reference_count_' (AddReference b1) = reference_count_' (objects m ! a) + 1"
    by (simp add: AddReference_def)
  with \<open>ok\<close> out m' top lt show ?thesis by (simp add: assign_def)
qed

text \<open>
  C4: when \<open>ReleaseBuffer\<close> has brought the reference count of a buffer from one to
  zero, a \<open>GetBuffer\<close> that follows it and succeeds returns that buffer, with its
  reference count back at 1, and creates no buffer. In every pool with a non-empty
  free list a successful \<open>GetBuffer\<close> returns the buffer on top of the free list and
  creates none; where the pool satisfies its invariant, the reference count of the
  returned buffer is 1.
\<close>

theorem GetBuffer_reuses_released:
  "(GetBuffer_id m id' = Some a \<and> deref m a = Some b \<and> reference_count_' b = 1
      \<and> ReleaseBuffer m id' = Some (kJniStatusOk, m1)
      \<and> GetBuffer m1 y uv new_ok alloc_ok = Some (kJniStatusOk, out, m2) \<longrightarrow>
      out = Some a \<and> map_option reference_count_' (deref m2 a) = Some 1
      \<and> all_buffer_count_' m2 = all_buffer_count_' m
      \<and> length (objects m2) = length (objects m))
   \<and> (free_buffer_count_' m \<noteq> 0
        \<and> GetBuffer m y uv new_ok alloc_ok = Some (kJniStatusOk, out', m') \<longrightarrow>
        out' = free_buffers_' m (free_buffer_count_' m - 1)
        \<and> free_buffer_count_' m' = free_buffer_count_' m - 1
        \<and> all_buffer_count_' m' = all_buffer_count_' m
        \<and> length (objects m') = length (objects m))
   \<and> (pool_invariant m \<and> free_buffer_count_' m \<noteq> 0
        \<and> GetBuffer m y uv new_ok alloc_ok = Some (kJniStatusOk, out', m') \<longrightarrow>
        map_option reference_count_' (Option.bind out' (deref m')) = Some 1)"
proof -
  have part1: "out = Some a \<and> map_option reference_count_' (deref m2 a) = Some 1
      \<and> all_buffer_count_' m2 = all_buffer_count_' m
      \<and> length (objects m2) = length (objects m)"
    if h: "GetBuffer_id m id' = Some a \<and> deref m a = Some b \<and> reference_count_' b = 1
      \<and> ReleaseBuffer m id' = Some (kJniStatusOk, m1)
      \<and> GetBuffer m1 y uv new_ok alloc_ok = Some (kJniStatusOk, out, m2)"
  proof -
    from h have a: "array_read kMaxFrames (all_buffers_' m) id' = Some a"
      and b: "deref m a = Some b" and rc: "reference_count_' b = 1"
      and rel: "ReleaseBuffer m id' = Some (kJniStatusOk, m1)"
      and get: "GetBuffer m1 y uv new_ok alloc_ok = Some (kJniStatusOk, out, m2)"
      by (auto simp: GetBuffer_id_def)
    from b have lt: "a < length (objects m)" by (auto simp: deref_def split: if_splits)
    from rel a b rc have bounds: "0 \<le> free_buffer_count_' m"
      and m1: "m1 = (assign m a (b\<lparr>reference_count_' := 0\<rparr>))
                      \<lparr>free_buffers_' := (free_buffers_' m)(free_buffer_count_' m \<mapsto> a),
                       free_buffer_count_' := free_buffer_count_' m + 1\<rparr>"
      by (auto simp: ReleaseBuffer_def InUse_def RemoveReference_def Let_def array_write_def
            assign_def bind_eq_Some_conv split: if_splits)
    from bounds m1 have ne: "free_buffer_count_' m1 \<noteq> 0" by simp
    from GetBuffer_pop_result [OF ne get] obtain c where "out = Some c"
      and top: "out = free_buffers_' m1 (free_buffer_count_' m1 - 1)"
      and cnt: "all_buffer_count_' m2 = all_buffer_count_' m1"
        "length (objects m2) = length (objects m1)"
      and ref: "reference_count_' (objects m2 ! c) = reference_count_' (objects m1 ! c) + 1"
      by auto
    from top m1 have out: "out = Some a" by simp
    with \<open>out = Some c\<close> have "c = a" by simp
    with ref m1 lt have "reference_count_' (objects m2 ! a) = 1" by (simp add: assign_def)
    with out cnt m1 lt show ?thesis by (simp add: deref_def assign_def)
  qed
  have part2: "out' = free_buffers_' m (free_buffer_count_' m - 1)
        \<and> free_buffer_count_' m' = free_buffer_count_' m - 1
        \<and> all_buffer_count_' m' = all_buffer_count_' m
        \<and> length (objects m') = length (objects m)"
    if "free_buffer_count_' m \<noteq> 0
        \<and> GetBuffer m y uv new_ok alloc_ok = Some (kJniStatusOk, out', m')"
    using that GetBuffer_pop_result [of m y uv new_ok alloc_ok out' m'] by auto
  have part3: "map_option reference_count_' (Option.bind out' (deref m')) = Some 1"
    if h: "pool_invariant m \<and> free_buffer_count_' m \<noteq> 0
        \<and> GetBuffer m y uv new_ok alloc_ok = Some (kJniStatusOk, out', m')"
  proof -
    from h have "free_buffer_count_' m - 1 \<in> set [0..free_buffer_count_' m - 1]"
      by (auto simp: pool_invariant_def)
    with h have "free_slot_ok m (free_buffer_count_' m - 1)"
      by (simp add: pool_invariant_def list_all_iff)
    then obtain c b where top: "free_buffers_' m (free_buffer_count_' m - 1) = Some c"
      and b: "deref m c = Some b" and rc: "reference_count_' b = 0"
      by (auto simp: free_slot_ok_def bind_eq_Some_conv split: option.splits)
    from b have bo: "b = objects m ! c" by (auto simp: deref_def split: if_splits)
    from h GetBuffer_pop_result [of m y uv new_ok alloc_ok out' m'] top
    have "out' = Some c" "c < length (objects m)" "length (objects m') = length (objects m)"
      "reference_count_' (objects m' ! c) = reference_count_' (objects m ! c) + 1"
      by auto
    with rc bo show ?thesis by (simp add: deref_def)
  qed
  from part1 part2 part3 show ?thesis by blast
qed

theorem GetBuffer_reuses_released_witness:
  "GetBuffer_id pool_one 0 = Some 0
   \<and> map_option reference_count_' (deref pool_one 0) = Some 1
   \<and> map_option fst (ReleaseBuffer pool_one 0) = Some kJniStatusOk
   \<and> free_buffer_count_' (snd (the (ReleaseBuffer pool_one 0))) \<noteq> 0
   \<and> map_option fst (GetBuffer (snd (the (ReleaseBuffer pool_one 0))) 64 32 True all_ok)
       = Some kJniStatusOk
   \<and> map_option (fst \<circ> snd) (GetBuffer (snd (the (ReleaseBuffer pool_one 0))) 64 32 True all_ok)
       = Some (Some 0)
   \<and> map_option (\<lambda>r. map_option reference_count_' (deref (snd (snd r)) 0))
        (GetBuffer (snd (the (ReleaseBuffer pool_one 0))) 64 32 True all_ok) = Some (Some 1)
   \<and> map_option (all_buffer_count_' \<circ> snd \<circ> snd)
        (GetBuffer (snd (the (ReleaseBuffer pool_one 0))) 64 32 True all_ok)
       = Some (all_buffer_count_' pool_one)"
proof -
  let ?m1 = "snd (the (ReleaseBuffer pool_one 0))"
  let ?g = "GetBuffer ?m1 64 32 True all_ok"
  have g: "GetBuffer_id pool_one 0 = Some 0" by code_simp
  have d: "map_option reference_count_' (deref pool_one 0) = Some 1" by code_simp
  then obtain b where b: "deref pool_one 0 = Some b" and rc: "reference_count_' b = 1"
    by (cases "deref pool_one 0") auto
  have r: "map_option fst (ReleaseBuffer pool_one 0) = Some kJniStatusOk" by code_simp
  have ne: "free_buffer_count_' ?m1 \<noteq> 0" by code_simp
  have s: "map_option fst ?g = Some kJniStatusOk" by code_simp
  from GetBuffer_reuses_released [where m = pool_one and id' = 0 and a = 0 and b = b
      and ?m1.0 = ?m1 and y = 64 and uv = 32 and new_ok = True and alloc_ok = all_ok
      and out = "fst (snd (the ?g))" and ?m2.0 = "snd (snd (the ?g))"]
    g b rc result_pair [OF r] result_triple [OF s]
  have "fst (snd (the ?g)) = Some 0
      \<and> map_option reference_count_' (deref (snd (snd (the ?g))) 0) = Some 1
      \<and> all_buffer_count_' (snd (snd (the ?g))) = all_buffer_count_' pool_one"
    by blast
  moreover have inv: "pool_invariant ?m1" by code_simp
  from GetBuffer_reuses_released [where m = ?m1 and y = 64 and uv = 32 and new_ok = True
      and alloc_ok = all_ok and out' = "fst (snd (the ?g))" and m' = "snd (snd (the ?g))"]
    inv ne result_triple [OF s]
  have "map_option reference_count_' (Option.bind (fst (snd (the ?g))) (deref (snd (snd (the ?g)))))
        = Some 1"
    by blast
  moreover from s obtain x where "?g = Some x" by (cases ?g) auto
  ultimately show ?thesis using g d r ne s by simp
qed

text \<open>
  C8, as the specification states it: the invariant of the pool after every sequence of
  calls from the empty pool. It fails when \<open>AddBufferReference\<close> is applied to a
  buffer that is on the free list: the buffer stays on the free list with reference
  count 1, and a second release puts it on the free list twice.
\<close>

theorem pool_invariant_counterexample:
  "map_option pool_invariant
     (run_ops JniBufferManager_new
        [OpGetBuffer 64 32 True all_ok, OpReleaseBuffer 0, OpAddBufferReference 0])
   = Some False
   \<and> map_option (\<lambda>m. (free_buffer_count_' m, all_buffer_count_' m))
      (run_ops JniBufferManager_new
        [OpGetBuffer 64 32 True all_ok, OpReleaseBuffer 0, OpAddBufferReference 0,
         OpReleaseBuffer 0])
     = Some (2, 1)"
  by code_simp

text \<open>
  C8, amended: the invariant holds after every sequence of \<open>GetBuffer\<close>,
  \<open>ReleaseBuffer\<close> and \<open>AddBufferReference\<close> calls from the empty pool in which
  each \<open>AddBufferReference\<close> is applied to a buffer that is in use.
\<close>

theorem pool_invariant_preserved:
  assumes "add_references_in_use JniBufferManager_new ops"
    and "run_ops JniBufferManager_new ops = Some m"
  shows "pool_invariant m"
  using run_ops_consistent [OF pool_consistent_new assms] by (rule pool_consistent_invariant)

theorem pool_invariant_preserved_witness:
  "add_references_in_use JniBufferManager_new
     [OpGetBuffer 64 32 True all_ok, OpAddBufferReference 0, OpReleaseBuffer 0,
      OpGetBuffer 64 32 True all_ok, OpReleaseBuffer 0, OpReleaseBuffer 1, OpReleaseBuffer 1,
      OpGetBuffer 64 32 True all_ok]
   \<and> map_option pool_invariant
       (run_ops JniBufferManager_new
          [OpGetBuffer 64 32 True all_ok, OpAddBufferReference 0, OpReleaseBuffer 0,
           OpGetBuffer 64 32 True all_ok, OpReleaseBuffer 0, OpReleaseBuffer 1,
           OpReleaseBuffer 1, OpGetBuffer 64 32 True all_ok])
      = Some True"
proof -
  let ?ops = "[OpGetBuffer 64 32 True all_ok, OpAddBufferReference 0, OpReleaseBuffer 0,
      OpGetBuffer 64 32 True all_ok, OpReleaseBuffer 0, OpReleaseBuffer 1, OpReleaseBuffer 1,
      OpGetBuffer 64 32 True all_ok]"
  have a: "add_references_in_use JniBufferManager_new ?ops" by code_simp
  have "run_ops JniBufferManager_new ?ops \<noteq> None" by code_simp
  then obtain m where m: "run_ops JniBufferManager_new ?ops = Some m" by auto
  from pool_invariant_preserved [OF a m] have "pool_invariant m" .
  with a m show ?thesis by simp
qed

text \<open>
  C9: \<open>gav1ReleaseFrame\<close> writes -1 into \<open>decoderPrivate\<close>; when the value it read
  is negative it returns without touching the context, and so the pool. A second call
  on the output buffer and context that a first call left changes nothing and logs no
  error.
\<close>

theorem gav1ReleaseFrame_idempotent:
  "(decoderPrivate ob < 0 \<longrightarrow>
      gav1ReleaseFrame c ob = Some (c, ob\<lparr>decoderPrivate := -1\<rparr>, []))
   \<and> (gav1ReleaseFrame c ob = Some (c1, ob1, log1) \<longrightarrow>
        decoderPrivate ob1 = -1 \<and> gav1ReleaseFrame c1 ob1 = Some (c1, ob1, []))"
proof -
  have neg: "gav1ReleaseFrame c' ob' = Some (c', ob'\<lparr>decoderPrivate := -1\<rparr>, [])"
    if "decoderPrivate ob' < 0" for c' ob'
    using that by (simp add: gav1ReleaseFrame_def)
  have first: "ob1 = ob\<lparr>decoderPrivate := -1\<rparr>" if "gav1ReleaseFrame c ob = Some (c1, ob1, log1)"
    using that by (auto simp: gav1ReleaseFrame_def Let_def bind_eq_Some_conv split: if_splits)
  have "decoderPrivate ob1 = -1 \<and> gav1ReleaseFrame c1 ob1 = Some (c1, ob1, [])"
    if r: "gav1ReleaseFrame c ob = Some (c1, ob1, log1)"
  proof -
    from first [OF r] have d: "decoderPrivate ob1 = -1" and e: "ob1\<lparr>decoderPrivate := -1\<rparr> = ob1"
      by simp_all
    from d have "decoderPrivate ob1 < 0" by simp
    from neg [OF this, of c1] d e show ?thesis by simp
  qed
  with neg [of ob c] show ?thesis by blast
qed

theorem gav1ReleaseFrame_idempotent_witness:
  "map_option (\<lambda>r. (jni_status_code (fst r), free_buffer_count_' (buffer_manager (fst r)),
                     decoderPrivate (fst (snd r)), snd (snd r)))
     (gav1ReleaseFrame context_one output_buffer_zero) = Some (kJniStatusOk, 1, -1, [])
   \<and> gav1ReleaseFrame (fst (the (gav1ReleaseFrame context_one output_buffer_zero)))
        (fst (snd (the (gav1ReleaseFrame context_one output_buffer_zero))))
      = Some (fst (the (gav1ReleaseFrame context_one output_buffer_zero)),
              fst (snd (the (gav1ReleaseFrame context_one output_buffer_zero))), [])"
proof -
  let ?r = "gav1ReleaseFrame context_one output_buffer_zero"
  have v: "map_option (\<lambda>r. (jni_status_code (fst r), free_buffer_count_' (buffer_manager (fst r)),
                     decoderPrivate (fst (snd r)), snd (snd r))) ?r = Some (kJniStatusOk, 1, -1, [])"
    by code_simp
  then obtain x where x: "?r = Some x" by (cases ?r) auto
  then have "?r = Some (fst (the ?r), fst (snd (the ?r)), snd (snd (the ?r)))" by simp
  with gav1ReleaseFrame_idempotent [of output_buffer_zero context_one "fst (the ?r)"
      "fst (snd (the ?r))" "snd (snd (the ?r))"]
  have "gav1ReleaseFrame (fst (the ?r)) (fst (snd (the ?r)))
        = Some (fst (the ?r), fst (snd (the ?r)), [])" by blast
  with v show ?thesis by simp
qed

subsection \<open>Frame data\<close>

lemma int_of_ptrdiff_id: "- (2 ^ 31) \<le> x \<Longrightarrow> x < 2 ^ 31 \<Longrightarrow> int_of_ptrdiff x = x"
  unfolding int_of_ptrdiff_def by (simp add: signed_take_bit_int_eq_self)

lemma cdiv_nonneg: "0 \<le> a \<Longrightarrow> 0 < b \<Longrightarrow> cdiv a b = a div b"
  by (cases "a = 0") (simp_all add: cdiv_def)

lemma SetFrameData_result:
  "SetFrameData b pic =
     Some (b\<lparr>stride_' := (stride_' b)
                (0 \<mapsto> int_of_ptrdiff (fst (Dav1dPicture.stride pic)),
                 1 \<mapsto> int_of_ptrdiff (snd (Dav1dPicture.stride pic)),
                 2 \<mapsto> int_of_ptrdiff (snd (Dav1dPicture.stride pic))),
             plane_' := (plane_' b)
                (0 \<mapsto> fst (Dav1dPicture.data pic), 1 \<mapsto> fst (snd (Dav1dPicture.data pic)),
                 2 \<mapsto> snd (snd (Dav1dPicture.data pic))),
             displayed_width_' := (displayed_width_' b)
                (0 \<mapsto> w (p pic), 1 \<mapsto> cdiv (w (p pic)) 2, 2 \<mapsto> cdiv (w (p pic)) 2),
             displayed_height_' := (displayed_height_' b)
                (0 \<mapsto> h (p pic), 1 \<mapsto> cdiv (h (p pic)) 2, 2 \<mapsto> cdiv (h (p pic)) 2)\<rparr>)"
  by (simp add: SetFrameData_def plane_indices SetFrameData_plane_def array_write_def
        kMaxPlanes_def stride_at_def data_at_def split: prod.split)

text \<open>
  C5: \<open>SetFrameData\<close> always succeeds, and afterwards the luma plane has the
  picture's \<open>w\<close> and \<open>h\<close> as displayed width and height, both chroma planes have
  \<open>w / 2\<close> and \<open>h / 2\<close> (the division of C++), the strides of planes 0, 1 and 2
  are the picture's \<open>stride[0]\<close>, \<open>stride[1]\<close> and \<open>stride[1]\<close> converted to
  \<open>int\<close> (the strides themselves when they fit an \<open>int\<close>), and each plane pointer
  is the picture's data pointer of that plane.
\<close>

theorem SetFrameData_sets_planes:
  "\<exists>b'. SetFrameData b pic = Some b'
     \<and> DisplayedWidth b' kPlaneY = Some (w (p pic))
     \<and> DisplayedHeight b' kPlaneY = Some (h (p pic))
     \<and> DisplayedWidth b' kPlaneU = Some (cdiv (w (p pic)) 2)
     \<and> DisplayedHeight b' kPlaneU = Some (cdiv (h (p pic)) 2)
     \<and> DisplayedWidth b' kPlaneV = Some (cdiv (w (p pic)) 2)
     \<and> DisplayedHeight b' kPlaneV = Some (cdiv (h (p pic)) 2)
     \<and> Stride b' 0 = Some (int_of_ptrdiff (fst (Dav1dPicture.stride pic)))
     \<and> Stride b' 1 = Some (int_of_ptrdiff (snd (Dav1dPicture.stride pic)))
     \<and> Stride b' 2 = Some (int_of_ptrdiff (snd (Dav1dPicture.stride pic)))
     \<and> (- (2 ^ 31) \<le> fst (Dav1dPicture.stride pic) \<and> fst (Dav1dPicture.stride pic) < 2 ^ 31
          \<and> - (2 ^ 31) \<le> snd (Dav1dPicture.stride pic) \<and> snd (Dav1dPicture.stride pic) < 2 ^ 31
          \<longrightarrow> Stride b' 0 = stride_at pic 0 \<and> Stride b' 1 = stride_at pic 1
              \<and> Stride b' 2 = stride_at pic 1)
     \<and> Plane b' 0 = data_at pic 0 \<and> Plane b' 1 = data_at pic 1 \<and> Plane b' 2 = data_at pic 2
     \<and> id_' b' = id_' b \<and> reference_count_' b' = reference_count_' b"
  unfolding SetFrameData_result
  by (simp add: DisplayedWidth_def DisplayedHeight_def Stride_def Plane_def array_read_def
        kMaxPlanes_def kPlaneY_def kPlaneU_def kPlaneV_def stride_at_def data_at_def
        int_of_ptrdiff_id split: prod.split)

theorem SetFrameData_sets_planes_witness:
  "\<exists>b'. SetFrameData (JniFrameBuffer_new 0) picture_yuv = Some b'
     \<and> DisplayedWidth b' kPlaneY = Some 16 \<and> DisplayedHeight b' kPlaneY = Some 2
     \<and> DisplayedWidth b' kPlaneU = Some 8 \<and> DisplayedHeight b' kPlaneU = Some 1
     \<and> DisplayedWidth b' kPlaneV = Some 8 \<and> DisplayedHeight b' kPlaneV = Some 1
     \<and> Stride b' 0 = Some 16 \<and> Stride b' 1 = Some 8 \<and> Stride b' 2 = Some 8
     \<and> Plane b' 0 = Some (1, 0) \<and> Plane b' 1 = Some (2, 0) \<and> Plane b' 2 = Some (3, 0)"
  using SetFrameData_sets_planes [of "JniFrameBuffer_new 0" picture_yuv]
  by (auto simp add: picture_yuv_def stride_at_def data_at_def cdiv_def)
subsection \<open>Rendering\<close>

lemma load_store_same:
  assumes "store_bytes mem q xs = Some mem'"
  shows "load_bytes mem' q (int (length xs)) = Some xs"
proof -
  from assms obtain bs where bs: "mem (fst q) = Some bs"
    and r: "0 \<le> snd q" "snd q + int (length xs) \<le> int (length bs)"
    and m': "mem' = mem(fst q \<mapsto> take (nat (snd q)) bs @ xs @ drop (nat (snd q) + length xs) bs)"
    by (auto simp: store_bytes_def split: option.splits if_splits)
  from r have "nat (snd q) \<le> length bs" by linarith
  then have "length (take (nat (snd q)) bs) = nat (snd q)" by simp
  then have "drop (nat (snd q)) (take (nat (snd q)) bs @ xs @ drop (nat (snd q) + length xs) bs)
             = xs @ drop (nat (snd q) + length xs) bs"
    by (metis append_eq_conv_conj)
  with r show ?thesis unfolding m' by (simp add: load_bytes_def)
qed

lemma load_store_other:
  assumes "store_bytes mem q xs = Some mem'"
    and "fst q' \<noteq> fst q \<or> snd q' + n \<le> snd q \<or> snd q + int (length xs) \<le> snd q'"
  shows "load_bytes mem' q' n = load_bytes mem q' n"
proof -
  from assms(1) obtain bs where bs: "mem (fst q) = Some bs"
    and r: "0 \<le> snd q" "snd q + int (length xs) \<le> int (length bs)"
    and m': "mem' = mem(fst q \<mapsto> take (nat (snd q)) bs @ xs @ drop (nat (snd q) + length xs) bs)"
    by (auto simp: store_bytes_def split: option.splits if_splits)
  let ?bs' = "take (nat (snd q)) bs @ xs @ drop (nat (snd q) + length xs) bs"
  from r have len: "length ?bs' = length bs" by (simp add: min_def) linarith
  show ?thesis
  proof (cases "fst q' = fst q")
    case False
    then show ?thesis unfolding m' by (simp add: load_bytes_def)
  next
    case True
    show ?thesis
    proof (cases "0 \<le> snd q' \<and> 0 \<le> n \<and> snd q' + n \<le> int (length bs)")
      case False
      with True bs len show ?thesis unfolding m' by (auto simp: load_bytes_def)
    next
      case inr: True
      from True assms(2) consider "snd q' + n \<le> snd q" | "snd q + int (length xs) \<le> snd q'"
        by auto
      then have "take (nat n) (drop (nat (snd q')) ?bs') = take (nat n) (drop (nat (snd q')) bs)"
      proof cases
        case 1
        with inr r have a: "nat (snd q') + nat n \<le> nat (snd q)" "nat (snd q) \<le> length bs"
          by linarith+
        then have "take (nat n) (drop (nat (snd q')) ?bs')
                   = take (nat n) (drop (nat (snd q')) (take (nat (snd q)) bs))"
          by simp
        also have "\<dots> = take (nat n) (drop (nat (snd q')) bs)"
          using a by (simp add: drop_take min_def)
        finally show ?thesis .
      next
        case 2
        with inr r have a: "nat (snd q) + length xs \<le> nat (snd q')" "nat (snd q) \<le> length bs"
          by linarith+
        then have "drop (nat (snd q')) ?bs'
                   = drop (nat (snd q') - nat (snd q) - length xs) (drop (nat (snd q) + length xs) bs)"
          by simp
        also have "\<dots> = drop (nat (snd q')) bs" using a by simp
        finally show ?thesis by simp
      qed
      with True bs len inr show ?thesis unfolding m' by (simp add: load_bytes_def)
    qed
  qed
qed

lemma memcpy_Some:
  assumes "memcpy mem d s n = Some mem'"
  shows "\<exists>xs. load_bytes mem s n = Some xs \<and> int (length xs) = n \<and> store_bytes mem d xs = Some mem'"
proof -
  from assms obtain xs where l: "load_bytes mem s n = Some xs" and st: "store_bytes mem d xs = Some mem'"
    by (auto simp: memcpy_def bind_eq_Some_conv split: if_splits)
  from l have "int (length xs) = n"
    by (auto simp: load_bytes_def split: option.splits if_splits)
  with l st show ?thesis by blast
qed

lemma CopyPlane_rows_frame:
  assumes "CopyPlane_rows n mem s ss d ds wd = Some mem'"
    and "fst q \<noteq> fst d \<or> (0 \<le> ds \<and> snd q + k \<le> snd d)"
  shows "load_bytes mem' q k = load_bytes mem q k"
  using assms
proof (induction n arbitrary: mem s d)
  case 0
  then show ?case by simp
next
  case (Suc n)
  from Suc.prems(1) obtain mem1 where c: "memcpy mem d s wd = Some mem1"
    and rest: "CopyPlane_rows n mem1 (ptr_add s ss) ss (ptr_add d ds) ds wd = Some mem'"
    by (auto simp: bind_eq_Some_conv)
  from memcpy_Some [OF c] obtain xs where st: "store_bytes mem d xs = Some mem1"
    and len: "int (length xs) = wd" by blast
  from Suc.prems(2) have "load_bytes mem1 q k = load_bytes mem q k"
    by (intro load_store_other [OF st]) auto
  moreover from Suc.prems(2) have "load_bytes mem' q k = load_bytes mem1 q k"
    by (intro Suc.IH [OF rest]) (auto simp: ptr_add_def)
  ultimately show ?case by simp
qed

text \<open>
  What \<open>CopyPlane\<close> achieves when the source and the destination are different
  blocks and the rows of the destination do not overlap: row \<open>r\<close> of the
  destination, at \<open>r * destination_stride\<close>, holds row \<open>r\<close> of the source.
\<close>

lemma CopyPlane_rows_row:
  assumes "CopyPlane_rows n mem s ss d ds wd = Some mem'"
    and "fst s \<noteq> fst d" and "wd \<le> ds" and "r < n"
  shows "load_bytes mem' (ptr_add d (int r * ds)) wd = load_bytes mem (ptr_add s (int r * ss)) wd
         \<and> load_bytes mem (ptr_add s (int r * ss)) wd \<noteq> None"
  using assms
proof (induction n arbitrary: mem s d r)
  case 0
  then show ?case by simp
next
  case (Suc n)
  from Suc.prems(1) obtain mem1 where c: "memcpy mem d s wd = Some mem1"
    and rest: "CopyPlane_rows n mem1 (ptr_add s ss) ss (ptr_add d ds) ds wd = Some mem'"
    by (auto simp: bind_eq_Some_conv)
  from memcpy_Some [OF c] obtain xs where ld: "load_bytes mem s wd = Some xs"
    and st: "store_bytes mem d xs = Some mem1" and len: "int (length xs) = wd" by blast
  from len have wd0: "0 \<le> wd" by linarith
  have src: "load_bytes mem1 q k = load_bytes mem q k" if "fst q = fst s" for q k
    using that Suc.prems(2) by (intro load_store_other [OF st]) auto
  show ?case
  proof (cases r)
    case 0
    from wd0 Suc.prems(3) have "load_bytes mem' d wd = load_bytes mem1 d wd"
      by (intro CopyPlane_rows_frame [OF rest]) (auto simp: ptr_add_def)
    also from load_store_same [OF st] len have "\<dots> = Some xs" by simp
    finally show ?thesis using 0 ld by (simp add: ptr_add_def)
  next
    case (Suc r')
    with Suc.prems(4) have "r' < n" by simp
    from Suc.IH [OF rest _ Suc.prems(3) this] Suc.prems(2)
    have "load_bytes mem' (ptr_add (ptr_add d ds) (int r' * ds)) wd
          = load_bytes mem1 (ptr_add (ptr_add s ss) (int r' * ss)) wd
          \<and> load_bytes mem1 (ptr_add (ptr_add s ss) (int r' * ss)) wd \<noteq> None"
      by (simp add: ptr_add_def)
    moreover have "load_bytes mem1 (ptr_add (ptr_add s ss) (int r' * ss)) wd
                   = load_bytes mem (ptr_add (ptr_add s ss) (int r' * ss)) wd"
      by (rule src) (simp add: ptr_add_def)
    moreover have "ptr_add (ptr_add d ds) (int r' * ds) = ptr_add d (int r * ds)"
      "ptr_add (ptr_add s ss) (int r' * ss) = ptr_add s (int r * ss)"
      using Suc by (simp_all add: ptr_add_def algebra_simps)
    ultimately show ?thesis by simp
  qed
qed

lemma CopyPlane_row:
  assumes "CopyPlane mem s ss d ds wd ht = Some mem'"
    and "fst s \<noteq> fst d" and "wd \<le> ds" and "0 \<le> r" and "r < ht"
  shows "load_bytes mem' (ptr_add d (r * ds)) wd = load_bytes mem (ptr_add s (r * ss)) wd"
proof -
  from assms(1) have "CopyPlane_rows (nat ht) mem s ss d ds wd = Some mem'"
    by (simp add: CopyPlane_def split: if_splits)
  from CopyPlane_rows_row [OF this assms(2,3), of "nat r"] assms(4,5) show ?thesis by simp
qed

lemma gav1RenderFrame_planes_Some:
  assumes "gav1RenderFrame_planes jni_buffer nwb bits' mem = Some mem'"
  shows "\<exists>plane_y stride_y width_y height_y plane_v stride_v width_v height_v
            plane_u stride_u width_u height_u mem1 mem2.
     Plane jni_buffer kPlaneY = Some plane_y \<and> Stride jni_buffer kPlaneY = Some stride_y
     \<and> DisplayedWidth jni_buffer kPlaneY = Some width_y
     \<and> DisplayedHeight jni_buffer kPlaneY = Some height_y
     \<and> Plane jni_buffer kPlaneV = Some plane_v \<and> Stride jni_buffer kPlaneV = Some stride_v
     \<and> DisplayedWidth jni_buffer kPlaneV = Some width_v
     \<and> DisplayedHeight jni_buffer kPlaneV = Some height_v
     \<and> Plane jni_buffer kPlaneU = Some plane_u \<and> Stride jni_buffer kPlaneU = Some stride_u
     \<and> DisplayedWidth jni_buffer kPlaneU = Some width_u
     \<and> DisplayedHeight jni_buffer kPlaneU = Some height_u
     \<and> CopyPlane mem plane_y stride_y bits' (ANativeWindow_Buffer.stride nwb) width_y height_y
         = Some mem1
     \<and> CopyPlane mem1 plane_v stride_v
           (ptr_add bits' (ANativeWindow_Buffer.stride nwb * height nwb))
           (AlignTo16 (cdiv (ANativeWindow_Buffer.stride nwb) 2)) width_v
           (min (cdiv (height nwb + 1) 2) height_v) = Some mem2
     \<and> CopyPlane mem2 plane_u stride_u
           (ptr_add bits'
              (ANativeWindow_Buffer.stride nwb * height nwb
               + min (cdiv (height nwb + 1) 2) height_v
                 * AlignTo16 (cdiv (ANativeWindow_Buffer.stride nwb) 2)))
           (AlignTo16 (cdiv (ANativeWindow_Buffer.stride nwb) 2)) width_u
           (min (cdiv (height nwb + 1) 2) height_u) = Some mem'"
  using assms unfolding gav1RenderFrame_planes_def Let_def bind_eq_Some_conv by blast

lemma gav1RenderFrame_Ok:
  assumes "gav1RenderFrame host context jSurface jOutputBuffer mem = Some (kStatusOk, context', mem')"
  shows "\<exists>a context1 jni_buffer window nwb bits'.
      GetBuffer_id (buffer_manager context) (decoderPrivate jOutputBuffer) = Some a
      \<and> MaybeAcquireNativeWindow host context jSurface = (True, context1)
      \<and> deref (buffer_manager context1) a = Some jni_buffer
      \<and> native_window context1 = Some window
      \<and> ANativeWindow_lock host window = (0, nwb) \<and> bits nwb = Some bits'
      \<and> gav1RenderFrame_planes jni_buffer nwb bits' mem = Some mem'"
proof -
  from assms obtain a where a: "GetBuffer_id (buffer_manager context) (decoderPrivate jOutputBuffer) = Some a"
    by (auto simp: gav1RenderFrame_def Let_def bind_eq_Some_conv)
  obtain acquired context1 where acq: "MaybeAcquireNativeWindow host context jSurface = (acquired, context1)"
    by (cases "MaybeAcquireNativeWindow host context jSurface")
  from assms a acq have acquired
    by (cases acquired) (auto simp: gav1RenderFrame_def kStatusOk_def kStatusError_def)
  from assms a acq \<open>acquired\<close> obtain jni_buffer width_y height_y window
    where jb: "deref (buffer_manager context1) a = Some jni_buffer"
      and win: "native_window context1 = Some window"
      and rest: "(let resize = (native_window_width context1 \<noteq> width_y
                             \<or> native_window_height context1 \<noteq> height_y) in
               if resize \<and> ANativeWindow_setBuffersGeometry host window width_y height_y
                              kImageFormatYV12 \<noteq> 0
               then Some (kStatusError,
                          context1\<lparr>jni_status_code := kJniStatusANativeWindowError\<rparr>, mem)
               else
                 let context2 =
                       (if resize
                        then context1\<lparr>native_window_width := width_y,
                                      native_window_height := height_y\<rparr>
                        else context1)
                 in case ANativeWindow_lock host window of
                      (lock_result, native_window_buffer) \<Rightarrow>
                        if lock_result \<noteq> 0 \<or> bits native_window_buffer = None then
                          Some (kStatusError,
                                context2\<lparr>jni_status_code := kJniStatusANativeWindowError\<rparr>, mem)
                        else
                          do {
                            bits' \<leftarrow> bits native_window_buffer;
                            mem' \<leftarrow> gav1RenderFrame_planes jni_buffer native_window_buffer
                                      bits' mem;
                            if ANativeWindow_unlockAndPost host window \<noteq> 0 then
                              Some (kStatusError,
                                    context2\<lparr>jni_status_code := kJniStatusANativeWindowError\<rparr>,
                                    mem')
                            else Some (kStatusOk, context2, mem')
                          }) = Some (kStatusOk, context', mem')"
    by (auto simp: gav1RenderFrame_def bind_eq_Some_conv)
  obtain lock_result nwb where lock: "ANativeWindow_lock host window = (lock_result, nwb)"
    by (cases "ANativeWindow_lock host window")
  from rest lock have "lock_result = 0 \<and> (\<exists>bits'. bits nwb = Some bits'
      \<and> gav1RenderFrame_planes jni_buffer nwb bits' mem = Some mem')"
    by (auto simp: Let_def kStatusOk_def kStatusError_def bind_eq_Some_conv split: if_splits)
  with a acq \<open>acquired\<close> jb win lock show ?thesis by auto
qed

text \<open>
  C6: a call of \<open>gav1RenderFrame\<close> that renders the frame (it returns
  \<open>kStatusOk\<close>) has locked a window buffer with non-null \<open>bits\<close> and changed the
  memory by three \<open>CopyPlane\<close> calls: the Y plane to offset 0 with the window's
  stride, then the V plane to offset \<open>stride * height\<close> with the chroma stride
  \<open>AlignTo16(stride / 2)\<close>, then the U plane right after the rows copied for V;
  the height copied for a chroma plane is the minimum of \<open>(height + 1) / 2\<close> and
  the displayed height of that plane.
\<close>

theorem gav1RenderFrame_YV12_layout:
  assumes "gav1RenderFrame host context jSurface jOutputBuffer mem
           = Some (kStatusOk, context', mem')"
  shows "\<exists>a context1 jni_buffer window nwb bits' plane_y stride_y width_y height_y
            plane_v stride_v width_v height_v plane_u stride_u width_u height_u mem1 mem2.
     GetBuffer_id (buffer_manager context) (decoderPrivate jOutputBuffer) = Some a
     \<and> MaybeAcquireNativeWindow host context jSurface = (True, context1)
     \<and> deref (buffer_manager context1) a = Some jni_buffer
     \<and> native_window context1 = Some window
     \<and> ANativeWindow_lock host window = (0, nwb) \<and> bits nwb = Some bits'
     \<and> Plane jni_buffer kPlaneY = Some plane_y \<and> Stride jni_buffer kPlaneY = Some stride_y
     \<and> DisplayedWidth jni_buffer kPlaneY = Some width_y
     \<and> DisplayedHeight jni_buffer kPlaneY = Some height_y
     \<and> Plane jni_buffer kPlaneV = Some plane_v \<and> Stride jni_buffer kPlaneV = Some stride_v
     \<and> DisplayedWidth jni_buffer kPlaneV = Some width_v
     \<and> DisplayedHeight jni_buffer kPlaneV = Some height_v
     \<and> Plane jni_buffer kPlaneU = Some plane_u \<and> Stride jni_buffer kPlaneU = Some stride_u
     \<and> DisplayedWidth jni_buffer kPlaneU = Some width_u
     \<and> DisplayedHeight jni_buffer kPlaneU = Some height_u
     \<and> CopyPlane mem plane_y stride_y bits' (ANativeWindow_Buffer.stride nwb) width_y height_y
         = Some mem1
     \<and> CopyPlane mem1 plane_v stride_v
           (ptr_add bits' (ANativeWindow_Buffer.stride nwb * height nwb))
           (AlignTo16 (cdiv (ANativeWindow_Buffer.stride nwb) 2)) width_v
           (min (cdiv (height nwb + 1) 2) height_v) = Some mem2
     \<and> CopyPlane mem2 plane_u stride_u
           (ptr_add bits'
              (ANativeWindow_Buffer.stride nwb * height nwb
               + min (cdiv (height nwb + 1) 2) height_v
                 * AlignTo16 (cdiv (ANativeWindow_Buffer.stride nwb) 2)))
           (AlignTo16 (cdiv (ANativeWindow_Buffer.stride nwb) 2)) width_u
           (min (cdiv (height nwb + 1) 2) height_u) = Some mem'"
proof -
  from gav1RenderFrame_Ok [OF assms] obtain a context1 jni_buffer window nwb bits'
    where h: "GetBuffer_id (buffer_manager context) (decoderPrivate jOutputBuffer) = Some a"
      "MaybeAcquireNativeWindow host context jSurface = (True, context1)"
      "deref (buffer_manager context1) a = Some jni_buffer"
      "native_window context1 = Some window"
      "ANativeWindow_lock host window = (0, nwb)" "bits nwb = Some bits'"
      and pl: "gav1RenderFrame_planes jni_buffer nwb bits' mem = Some mem'"
    by blast
  from gav1RenderFrame_planes_Some [OF pl] h show ?thesis by blast
qed

lemma MaybeAcquireNativeWindow_buffer_manager:
  "MaybeAcquireNativeWindow host context new_surface = (acquired, context1) \<Longrightarrow>
   buffer_manager context1 = buffer_manager context"
  by (auto simp: MaybeAcquireNativeWindow_def Let_def split: if_splits)

theorem gav1RenderFrame_YV12_layout_witness:
  "map_option (\<lambda>r. (fst r, snd (snd r) 9))
     (gav1RenderFrame window_2x2 context_2x2 (Some 5) output_buffer_zero memory_2x2)
   = Some (kStatusOk, Some ([10, 11, 12, 13, 30] @ replicate 15 0 @ [20, 0, 0, 0]))
   \<and> (\<exists>mem1 mem2.
         CopyPlane memory_2x2 (1, 0) 2 (9, 0) 2 2 2 = Some mem1
         \<and> CopyPlane mem1 (3, 0) 1 (9, 4) 16 1 1 = Some mem2
         \<and> CopyPlane mem2 (2, 0) 1 (9, 20) 16 1 1
             = Some (snd (snd (the (gav1RenderFrame window_2x2 context_2x2 (Some 5)
                                       output_buffer_zero memory_2x2)))))"
proof -
  let ?r = "gav1RenderFrame window_2x2 context_2x2 (Some 5) output_buffer_zero memory_2x2"
  let ?b = "the (deref (buffer_manager context_2x2) 0)"
  have v: "map_option (\<lambda>r. (fst r, snd (snd r) 9)) ?r
           = Some (kStatusOk, Some ([10, 11, 12, 13, 30] @ replicate 15 0 @ [20, 0, 0, 0]))"
    by code_simp
  then have s: "map_option fst ?r = Some kStatusOk" by (cases ?r) auto
  from gav1RenderFrame_YV12_layout [OF result_triple [OF s]]
  obtain a context1 jni_buffer window nwb bits' plane_y stride_y width_y height_y
      plane_v stride_v width_v height_v plane_u stride_u width_u height_u mem1 mem2
    where a: "GetBuffer_id (buffer_manager context_2x2) (decoderPrivate output_buffer_zero)
              = Some a"
      and acq: "MaybeAcquireNativeWindow window_2x2 context_2x2 (Some 5) = (True, context1)"
      and jb: "deref (buffer_manager context1) a = Some jni_buffer"
      and lock: "ANativeWindow_lock window_2x2 window = (0, nwb)" "bits nwb = Some bits'"
      and y: "Plane jni_buffer kPlaneY = Some plane_y" "Stride jni_buffer kPlaneY = Some stride_y"
        "DisplayedWidth jni_buffer kPlaneY = Some width_y"
        "DisplayedHeight jni_buffer kPlaneY = Some height_y"
      and v': "Plane jni_buffer kPlaneV = Some plane_v" "Stride jni_buffer kPlaneV = Some stride_v"
        "DisplayedWidth jni_buffer kPlaneV = Some width_v"
        "DisplayedHeight jni_buffer kPlaneV = Some height_v"
      and u: "Plane jni_buffer kPlaneU = Some plane_u" "Stride jni_buffer kPlaneU = Some stride_u"
        "DisplayedWidth jni_buffer kPlaneU = Some width_u"
        "DisplayedHeight jni_buffer kPlaneU = Some height_u"
      and copies: "CopyPlane memory_2x2 plane_y stride_y bits' (ANativeWindow_Buffer.stride nwb)
           width_y height_y = Some mem1"
        "CopyPlane mem1 plane_v stride_v
           (ptr_add bits' (ANativeWindow_Buffer.stride nwb * height nwb))
           (AlignTo16 (cdiv (ANativeWindow_Buffer.stride nwb) 2)) width_v
           (min (cdiv (height nwb + 1) 2) height_v) = Some mem2"
        "CopyPlane mem2 plane_u stride_u
           (ptr_add bits'
              (ANativeWindow_Buffer.stride nwb * height nwb
               + min (cdiv (height nwb + 1) 2) height_v
                 * AlignTo16 (cdiv (ANativeWindow_Buffer.stride nwb) 2)))
           (AlignTo16 (cdiv (ANativeWindow_Buffer.stride nwb) 2)) width_u
           (min (cdiv (height nwb + 1) 2) height_u) = Some (snd (snd (the ?r)))"
    by blast
  have "GetBuffer_id (buffer_manager context_2x2) (decoderPrivate output_buffer_zero) = Some 0"
    by code_simp
  with a have a0: "a = 0" by simp
  have d: "deref (buffer_manager context_2x2) 0 \<noteq> None" by code_simp
  from jb a0 MaybeAcquireNativeWindow_buffer_manager [OF acq] d have b: "jni_buffer = ?b"
    by auto
  have fields: "Plane ?b kPlaneY = Some (1, 0) \<and> Stride ?b kPlaneY = Some 2
      \<and> DisplayedWidth ?b kPlaneY = Some 2 \<and> DisplayedHeight ?b kPlaneY = Some 2
      \<and> Plane ?b kPlaneV = Some (3, 0) \<and> Stride ?b kPlaneV = Some 1
      \<and> DisplayedWidth ?b kPlaneV = Some 1 \<and> DisplayedHeight ?b kPlaneV = Some 1
      \<and> Plane ?b kPlaneU = Some (2, 0) \<and> Stride ?b kPlaneU = Some 1
      \<and> DisplayedWidth ?b kPlaneU = Some 1 \<and> DisplayedHeight ?b kPlaneU = Some 1"
    by code_simp
  from lock have nwb: "ANativeWindow_Buffer.stride nwb = 2" "height nwb = 2" "bits' = (9, 0)"
    by (auto simp: window_2x2_def)
  have ar: "AlignTo16 (cdiv 2 2) = 16" "min (cdiv (2 + 1) 2) 1 = (1::int)" by code_simp+
  from copies y v' u fields ar show ?thesis
    unfolding b nwb by (auto simp: v ptr_add_def)
qed
subsection \<open>Copying a frame to the data buffer\<close>

lemma CopyFrameToDataBuffer_three_pointers:
  "CopyFrameToDataBuffer mem pic d =
     do {
       mem1 \<leftarrow> memcpy mem d (fst (Dav1dPicture.data pic)) sizeof_pointer;
       mem2 \<leftarrow> memcpy mem1 (ptr_add d sizeof_pointer) (fst (snd (Dav1dPicture.data pic)))
                 sizeof_pointer;
       memcpy mem2 (ptr_add (ptr_add d sizeof_pointer) sizeof_pointer)
         (snd (snd (Dav1dPicture.data pic))) sizeof_pointer
     }"
  unfolding CopyFrameToDataBuffer_def plane_indices
  by (cases "Dav1dPicture.data pic")
     (auto simp: data_at_def Let_def split: bind_split)

lemma gav1GetFrame_yuv_8bit:
  assumes "initForYuvFrame host jOutputBuffer mem (w (p pic)) (h (p pic))
             (int_of_ptrdiff (fst (Dav1dPicture.stride pic)))
             (int_of_ptrdiff (snd (Dav1dPicture.stride pic))) kColorSpaceUnknown
           = (True, False, jOutputBuffer1, mem1)"
    and "bpc (p pic) = 8" and "JOutputBuffer.data jOutputBuffer1 = Some d"
  shows "gav1GetFrame_yuv host context jOutputBuffer pic mem =
           map_option (\<lambda>mem2. (kStatusOk, context, jOutputBuffer1, mem2))
             (CopyFrameToDataBuffer mem1 pic d)"
  using assms by (simp add: gav1GetFrame_yuv_def map_option_case split: option.split)

text \<open>
  C1: at an 8-bit picture of 16 by 2 pixels in the mode \<open>kOutputModeYuv\<close>,
  \<open>gav1GetFrame\<close> returns \<open>kStatusOk\<close> and has written 24 bytes into the data
  buffer of 48: the first 8 bytes of the Y plane, of the U plane and of the V plane. The
  other 24 bytes of the Y plane are not copied, and the data buffer is not the three
  planes one after the other.
\<close>

theorem gav1GetFrame_copies_pointer_size:
  "map_option (\<lambda>r. (fst r, snd (snd (snd r)) 9))
     (gav1GetFrame host_yuv context_new output_buffer_yuv False memory_yuv)
   = Some (kStatusOk,
           Some ([1, 2, 3, 4, 5, 6, 7, 8] @ [101, 102, 103, 104, 105, 106, 107, 108]
                 @ [201, 202, 203, 204, 205, 206, 207, 208] @ replicate 24 0))
   \<and> map_option (\<lambda>r. snd (snd (snd r)) 9)
       (gav1GetFrame host_yuv context_new output_buffer_yuv False memory_yuv)
     \<noteq> Some (Some (the (memory_yuv 1) @ the (memory_yuv 2) @ the (memory_yuv 3)))"
  by code_simp

subsection \<open>The conversion from 10 to 8 bits\<close>

lemma and_3_mod_4: "(x::int) AND 3 = x mod 4"
proof -
  have "(3::int) = mask 2" by (simp add: mask_eq_exp_minus_1)
  then have "x AND 3 = take_bit 2 x" by (simp add: take_bit_eq_mask)
  then show ?thesis by (simp add: take_bit_eq_mod)
qed

lemma Convert10Bit_pixel_carry:
  "0 \<le> snd (Convert10Bit_pixel sample v) \<and> snd (Convert10Bit_pixel sample v) \<le> 3"
proof -
  have "(sample + v) AND 3 = (sample + v) mod 4" by (rule and_3_mod_4)
  then show ?thesis by (simp add: Convert10Bit_pixel_def Let_def)
qed

lemma Convert10Bit_pixel_exact:
  assumes "0 \<le> sample + v" and "sample + v < 1024"
  shows "4 * uint (fst (Convert10Bit_pixel sample v)) + snd (Convert10Bit_pixel sample v)
         = sample + v"
proof -
  have m: "(sample + v) AND 3 = (sample + v) mod 4" by (rule and_3_mod_4)
  have d: "drop_bit 2 (sample + v) = (sample + v) div 4" by (simp add: drop_bit_eq_div)
  from assms have "0 \<le> (sample + v) div 4" "(sample + v) div 4 < 256" by auto
  then have "uint (word_of_int ((sample + v) div 4) :: byte) = (sample + v) div 4"
    by (simp add: uint_word_of_int take_bit_eq_mod)
  with m d show ?thesis by (simp add: Convert10Bit_pixel_def Let_def)
qed

lemma Convert10Bit_row_carry:
  "Convert10Bit_row source_16 d js sample mem = Some (sample', mem') \<Longrightarrow>
   0 \<le> sample \<and> sample \<le> 3 \<Longrightarrow> 0 \<le> sample' \<and> sample' \<le> 3"
proof (induction js arbitrary: sample mem)
  case Nil
  then show ?case by simp
next
  case (Cons j js)
  from Cons.prems(1) obtain v mem1 where
    "Convert10Bit_row source_16 d js (snd (Convert10Bit_pixel sample v)) mem1 = Some (sample', mem')"
    by (auto simp: bind_eq_Some_conv)
  then show ?case using Convert10Bit_pixel_carry [of sample v] by (rule Cons.IH)
qed

text \<open>
  C10: the carry stays between 0 and 3, but the dither is not exact. With carry 1 the
  sample 1023 gives \<open>(1 + 1023) >> 2 = 256\<close>, which the conversion to \<open>jbyte\<close>
  stores as the byte 0, and the new carry is 0: four times the output plus the new
  carry is 0, not 1024. A row that holds the samples 1 and 1023 is converted to the
  bytes 0 and 0.
\<close>

theorem Convert10Bit_pixel_overflow:
  "Convert10Bit_pixel 0 1 = (0, 1) \<and> Convert10Bit_pixel 1 1023 = (0, 0)
   \<and> 4 * uint (fst (Convert10Bit_pixel 1 1023)) + snd (Convert10Bit_pixel 1 1023) \<noteq> 1 + 1023
   \<and> map_option (\<lambda>r. snd r 9)
       (Convert10Bit_rows picture_10bit kPlaneY [0..h (p picture_10bit) - 1] 0 (1, 0) (9, 0)
          memory_10bit)
     = Some (Some [0, 0, 7, 7, 7, 7, 7, 7])"
  by code_simp

subsection \<open>The lock discipline\<close>

lemma locked_methods:
  "accesses_locked False (GetBuffer_events m new_ok)"
  "accesses_locked False (AddBufferReference_events id')"
  "accesses_locked False (ReleaseBuffer_events m id')"
  by (simp_all add: GetBuffer_events_def AddBufferReference_events_def
        ReleaseBuffer_events_def split: option.split)

text \<open>
  C7: \<open>GetBuffer(int id)\<close> reads \<open>all_buffers_\<close> without holding the mutex;
  the three other methods hold it during every access (\<open>locked_methods\<close>).
\<close>

theorem GetBuffer_id_not_locked:
  "GetBuffer_id_events 0 = [Access All_buffers]
   \<and> \<not> accesses_locked False (GetBuffer_id_events 0)"
  by (simp add: GetBuffer_id_events_def)

end
